theory Spec2Isabelle
  imports Complex_Main "HOL-Library.Sublist" "HOL-Library.Char_ord" "HOL-Library.List_Lexorder"
begin

section \<open>Price tracker: a shallow embedding of \<open>price_tracker.py\<close>\<close>

text \<open>
  Conventions of the embedding.
  \<^item> A Python \<open>str\<close> is a \<open>string\<close>: a list of HOL characters, read as the code
    points below 256. On these code points the regular-expression class \<open>\d\<close> is
    exactly \<open>0\<close> to \<open>9\<close>, and \<open>str.lower\<close> maps one character to one character.
  \<^item> A Python \<open>float\<close> is a \<open>real\<close>: rounding to the nearest double is not modelled.
  \<^item> \<open>Optional[T]\<close> is \<open>T option\<close>; a configuration key that may be absent is an
    option field.
\<close>

subsection \<open>Characters and strings\<close>

definition is_digit :: "char \<Rightarrow> bool" where
  "is_digit c = (c \<in> set ''0123456789'')"

text \<open>\<open>str.lower\<close> on one code point below 256: the letters \<open>A\<close> to \<open>Z\<close> and the
  Latin-1 capitals \<open>0xC0\<close> to \<open>0xDE\<close> (without the multiplication sign \<open>0xD7\<close>) move up
  by 32.\<close>

definition lower_char :: "char \<Rightarrow> char" where
  "lower_char c =
     (let n = (of_char c :: nat)
      in if (65 \<le> n \<and> n \<le> 90) \<or> (192 \<le> n \<and> n \<le> 222 \<and> n \<noteq> 215)
         then char_of (n + 32) else c)"

definition lower :: "string \<Rightarrow> string" where
  "lower s = map lower_char s"

text \<open>\<open>needle in hay\<close> on strings: some suffix of \<open>hay\<close> starts with \<open>needle\<close>.\<close>

fun starts_with :: "string \<Rightarrow> string \<Rightarrow> bool" where
  "starts_with s [] = True"
| "starts_with [] (p # ps) = False"
| "starts_with (c # cs) (p # ps) = (c = p \<and> starts_with cs ps)"

fun py_in :: "string \<Rightarrow> string \<Rightarrow> bool" where
  "py_in needle [] = (needle = [])"
| "py_in needle (c # cs) = (starts_with (c # cs) needle \<or> py_in needle cs)"

subsection \<open>Regular expressions\<close>

text \<open>
  The patterns of the program are matched by Python's \<open>re\<close>, a backtracking matcher.
  A pattern is a value of \<open>rx\<close>; \<open>rmatch r (g, s)\<close> lists, in the order in which
  backtracking tries them, the ways \<open>r\<close> can match a prefix of \<open>s\<close>: each result is the
  text captured by group 1 so far and the rest of the string. The first result is the
  match \<open>re\<close> reports. \<open>Star\<close> is the greedy \<open>*\<close>, \<open>Lazy\<close> the non-greedy \<open>*?\<close>,
  \<open>Opt\<close> the greedy \<open>?\<close>, \<open>Group\<close> the capturing group 1. An iteration of a star
  that consumes nothing is not repeated.
\<close>

datatype rx =
    Sym "char \<Rightarrow> bool"
  | Eps
  | Seq rx rx
  | Alt rx rx
  | Opt rx
  | Star rx
  | Lazy rx
  | Group rx

type_synonym mstate = "string option \<times> string"

fun rmatch :: "rx \<Rightarrow> mstate \<Rightarrow> mstate list" where
  "rmatch (Sym p) (g, s) = (case s of [] \<Rightarrow> [] | c # cs \<Rightarrow> if p c then [(g, cs)] else [])"
| "rmatch Eps (g, s) = [(g, s)]"
| "rmatch (Seq a b) (g, s) = concat (map (rmatch b) (rmatch a (g, s)))"
| "rmatch (Alt a b) (g, s) = rmatch a (g, s) @ rmatch b (g, s)"
| "rmatch (Opt a) (g, s) = rmatch a (g, s) @ [(g, s)]"
| "rmatch (Star a) (g, s) =
     concat (map (\<lambda>m. if length (snd m) < length s then rmatch (Star a) m else [])
                 (rmatch a (g, s))) @ [(g, s)]"
| "rmatch (Lazy a) (g, s) =
     (g, s) # concat (map (\<lambda>m. if length (snd m) < length s then rmatch (Lazy a) m else [])
                 (rmatch a (g, s)))"
| "rmatch (Group a) (g, s) =
     map (\<lambda>m. (Some (take (length s - length (snd m)) s), snd m)) (rmatch a (g, s))"

declare rmatch.simps(6) [simp del] rmatch.simps(7) [simp del]

text \<open>\<open>r+\<close> is \<open>rr*\<close>.\<close>

definition Plus :: "rx \<Rightarrow> rx" where
  "Plus a = Seq a (Star a)"

text \<open>
  \<open>re.search\<close>: the first start position, from the left, at which the pattern matches.
  The result is the matched text (\<open>group(0)\<close>), group 1 (\<open>None\<close> when the group took
  no part in the match) and the text after the match.
\<close>

fun re_search :: "rx \<Rightarrow> string \<Rightarrow> (string \<times> string option \<times> string) option" where
  "re_search r [] =
     (case rmatch r (None, []) of [] \<Rightarrow> None | m # _ \<Rightarrow> Some ([], fst m, snd m))"
| "re_search r (c # cs) =
     (case rmatch r (None, c # cs) of
        [] \<Rightarrow> re_search r cs
      | m # _ \<Rightarrow> Some (take (length (c # cs) - length (snd m)) (c # cs), fst m, snd m))"

text \<open>
  \<open>re.finditer\<close>: the matches from left to right, each search starting where the
  previous match ended; a result is the matched text and group 1. The patterns of this
  program never match the empty string; the list ends at an empty match.
\<close>

fun finditer :: "rx \<Rightarrow> string \<Rightarrow> (string \<times> string option) list" where
  "finditer r s =
     (case re_search r s of
        None \<Rightarrow> []
      | Some m \<Rightarrow>
          (fst m, fst (snd m)) #
          (if length (snd (snd m)) < length s then finditer r (snd (snd m)) else []))"

declare finditer.simps [simp del]

text \<open>Whether a pattern has a group 1: \<open>m.group(1)\<close> raises \<open>IndexError\<close> without one.\<close>

fun has_group :: "rx \<Rightarrow> bool" where
  "has_group (Sym p) = False"
| "has_group Eps = False"
| "has_group (Seq a b) = (has_group a \<or> has_group b)"
| "has_group (Alt a b) = (has_group a \<or> has_group b)"
| "has_group (Opt a) = has_group a"
| "has_group (Star a) = has_group a"
| "has_group (Lazy a) = has_group a"
| "has_group (Group a) = True"

text \<open>Building patterns: a sequence, a literal, a literal under \<open>re.I\<close>, and the
  classes \<open>\s\<close> (on code points below 256) and \<open>["\']\<close>.\<close>

definition seqs :: "rx list \<Rightarrow> rx" where
  "seqs rs = foldr Seq rs Eps"

definition lit :: "string \<Rightarrow> rx" where
  "lit s = seqs (map (\<lambda>c. Sym (\<lambda>x. x = c)) s)"

definition lit_i :: "string \<Rightarrow> rx" where
  "lit_i s = seqs (map (\<lambda>c. Sym (\<lambda>x. lower_char x = lower_char c)) s)"

definition is_space :: "char \<Rightarrow> bool" where
  "is_space c = ((of_char c :: nat) \<in> set [9, 10, 11, 12, 13, 28, 29, 30, 31, 32, 133, 160])"

definition is_quote :: "char \<Rightarrow> bool" where
  "is_quote c = (c = CHR 0x22 \<or> c = CHR 0x27)"

subsection \<open>Utilities\<close>

text \<open>\<open>float\<close> of a token \<open>digits\<close> or \<open>digits.digits\<close>, the only strings the parser
  converts.\<close>

definition digit_val :: "char \<Rightarrow> nat" where
  "digit_val c = of_char c - of_char CHR ''0''"

definition nat_of_digits :: "string \<Rightarrow> nat" where
  "nat_of_digits ds = foldl (\<lambda>a c. 10 * a + digit_val c) 0 ds"

definition py_float :: "string \<Rightarrow> real" where
  "py_float tok =
     (let ip = takeWhile (\<lambda>c. c \<noteq> CHR ''.'') tok;
          fp = drop (length ip + 1) tok
      in real (nat_of_digits ip) + real (nat_of_digits fp) / 10 ^ length fp)"

text \<open>\<open>str.rfind\<close> for a one-character needle: the highest index, or \<open>-1\<close>.\<close>

fun rfind :: "string \<Rightarrow> char \<Rightarrow> int" where
  "rfind [] c = - 1"
| "rfind (x # xs) c =
     (let r = rfind xs c in if 0 \<le> r then r + 1 else if x = c then 0 else - 1)"

text \<open>\<open>str.replace\<close> of every occurrence of one character by a string.\<close>

definition replace :: "string \<Rightarrow> char \<Rightarrow> string \<Rightarrow> string" where
  "replace s old new = concat (map (\<lambda>x. if x = old then new else [x]) s)"

text \<open>\<open>re.sub\<close> of a one-character class by the empty string.\<close>

definition re_sub_delete :: "(char \<Rightarrow> bool) \<Rightarrow> string \<Rightarrow> string" where
  "re_sub_delete p s = filter (\<lambda>c. \<not> p c) s"

text \<open>The pattern \<open>\d+(?:\.\d+)?\<close>.\<close>

definition number_rx :: rx where
  "number_rx =
     Seq (Plus (Sym is_digit)) (Opt (Seq (Sym (\<lambda>c. c = CHR ''.'')) (Plus (Sym is_digit))))"

text \<open>\<open>extract_price_number\<close>, lines 59 to 72.\<close>

definition extract_price_number :: "string \<Rightarrow> real option" where
  "extract_price_number text =
     (if text = [] then None
      else let cleaned =
                 re_sub_delete (\<lambda>c. \<not> (is_digit c \<or> c = CHR ''.'' \<or> c = CHR '','')) text
      in if cleaned = [] then None
      else let last_dot = rfind cleaned CHR ''.'';
               last_comma = rfind cleaned CHR '','';
               main = (if last_comma > last_dot
                       then replace (replace cleaned CHR ''.'' []) CHR '','' ''.''
                       else replace cleaned CHR '','' [])
      in case re_search number_rx main of
           None \<Rightarrow> None
         | Some m \<Rightarrow> Some (py_float (fst m)))"

text \<open>\<open>pct_drop\<close>, lines 74 to 77.\<close>

definition pct_drop :: "real \<Rightarrow> real \<Rightarrow> real" where
  "pct_drop old new = (if old \<le> 0 then 0 else ((old - new) / old) * 100)"

subsection \<open>Errors and the outside world\<close>

text \<open>The exceptions the program can meet, as values.\<close>

datatype error =
    HttpError      \<comment> \<open>\<open>requests\<close>: transport failure, timeout, or \<open>raise_for_status\<close>\<close>
  | NoSuchGroup    \<comment> \<open>\<open>IndexError\<close> of \<open>m.group(1)\<close>\<close>
  | ValueError     \<comment> \<open>\<open>min\<close> of an empty list\<close>
  | ParserError    \<comment> \<open>\<open>lxml.html.fromstring\<close>\<close>
  | SelectorError  \<comment> \<open>\<open>cssselect\<close> on a selector it cannot read\<close>
  | SmtpError      \<comment> \<open>\<open>smtplib\<close>, or a key missing in the \<open>smtp\<close> block\<close>

text \<open>
  A match of a used search (the dictionaries of line 223), with the reason as a tagged
  value: \<open>BelowCeiling c\<close> is rendered \<open><= $c\<close>, \<open>BelowMsrp d\<close> is rendered
  \<open>d% below MSRP\<close>.
\<close>

datatype reason = NoReason | BelowCeiling real | BelowMsrp real

record match =
  m_title :: string
  m_url :: string
  m_price :: "real option"
  m_reason :: reason

text \<open>The two mails of \<open>main\<close>, by the values their subject and body are formatted from.\<close>

datatype email =
    RetailDrop string string real real real real
      \<comment> \<open>name, url, price, baseline, drop now, drop needed\<close>
  | UsedFinds string string "match list"
      \<comment> \<open>name, url, matches\<close>

text \<open>
  The libraries the program calls are parameters: \<open>'w\<close> is the state of the world
  (network, mail server, clock), passed through every call that has an effect, and
  \<open>'n\<close> is the type of the nodes of a parsed document.
\<close>

record ('w, 'n) env =
  http_get :: "'w \<Rightarrow> string \<Rightarrow> (string \<times> string) list \<Rightarrow> int \<Rightarrow> (error + string) \<times> 'w"
    \<comment> \<open>\<open>session.get(url, headers, timeout)\<close> and \<open>raise_for_status\<close>: the body\<close>
  fromstring :: "string \<Rightarrow> error + 'n"
  cssselect :: "'n \<Rightarrow> string \<Rightarrow> error + 'n list"
  text_content :: "'n \<Rightarrow> string"
  node_get :: "'n \<Rightarrow> string \<Rightarrow> string option"
  urljoin :: "string \<Rightarrow> string \<Rightarrow> string"
  send_email :: "'w \<Rightarrow> email \<Rightarrow> error option \<times> 'w"
  time_now :: "'w \<Rightarrow> int \<times> 'w"

text \<open>\<open>fetch_text\<close>, lines 79 to 82, and \<open>fetch_doc\<close>, lines 84 to 87.\<close>

definition fetch_text ::
  "('w, 'n) env \<Rightarrow> 'w \<Rightarrow> string \<Rightarrow> int \<Rightarrow> (string \<times> string) list \<Rightarrow> (error + string) \<times> 'w" where
  "fetch_text env w url timeout headers = http_get env w url headers timeout"

definition fetch_doc ::
  "('w, 'n) env \<Rightarrow> 'w \<Rightarrow> string \<Rightarrow> int \<Rightarrow> (string \<times> string) list \<Rightarrow> (error + 'n) \<times> 'w" where
  "fetch_doc env w url timeout headers =
     (case http_get env w url headers timeout of
        (Inl e, w') \<Rightarrow> (Inl e, w')
      | (Inr content, w') \<Rightarrow> (fromstring env content, w'))"

subsection \<open>Structured data\<close>

text \<open>The pattern of line 92, under \<open>re.S\<close> and \<open>re.I\<close>:
  \<open><script[^>]+type=["\']application/ld\+json["\'][^>]*>(.*?)</script>\<close>.\<close>

definition script_rx :: rx where
  "script_rx =
     seqs [lit_i ''<script'', Plus (Sym (\<lambda>c. c \<noteq> CHR ''>'')), lit_i ''type='',
           Sym is_quote, lit_i ''application/ld+json'', Sym is_quote,
           Star (Sym (\<lambda>c. c \<noteq> CHR ''>'')), lit ''>'',
           Group (Lazy (Sym (\<lambda>c. True))), lit_i ''</script>'']"

text \<open>The pattern of line 96 for a key \<open>k\<close>: \<open>"k"\s*:\s*"?([0-9][0-9\.,]*)"?\<close>.\<close>

definition key_rx :: "string \<Rightarrow> rx" where
  "key_rx k =
     seqs [Sym (\<lambda>c. c = CHR 0x22), lit k, Sym (\<lambda>c. c = CHR 0x22),
           Star (Sym is_space), lit '':'', Star (Sym is_space),
           Opt (Sym (\<lambda>c. c = CHR 0x22)),
           Group (Seq (Sym is_digit)
                      (Star (Sym (\<lambda>c. is_digit c \<or> c = CHR ''.'' \<or> c = CHR '','')))),
           Opt (Sym (\<lambda>c. c = CHR 0x22))]"

text \<open>\<open>extract_price_number\<close> of a group: a group that took no part is \<open>None\<close>, which
  line 60 turns into \<open>None\<close>.\<close>

definition price_of_group :: "string option \<Rightarrow> real option" where
  "price_of_group g = (case g of None \<Rightarrow> None | Some t \<Rightarrow> extract_price_number t)"

text \<open>\<open>jsonld_prices\<close>, lines 89 to 100.\<close>

definition blob_prices :: "string \<Rightarrow> real list" where
  "blob_prices blob =
     concat (map (\<lambda>k. List.map_filter (\<lambda>pm. price_of_group (snd pm)) (finditer (key_rx k) blob))
                 [''price'', ''lowPrice'', ''highPrice''])"

definition jsonld_prices :: "string \<Rightarrow> real list" where
  "jsonld_prices text =
     concat (map (\<lambda>m. case snd m of None \<Rightarrow> [] | Some blob \<Rightarrow> blob_prices blob)
                 (finditer script_rx text))"

text \<open>The patterns of lines 103 and 105, under \<open>re.I\<close>.\<close>

definition meta_rx :: "string \<Rightarrow> string \<Rightarrow> rx" where
  "meta_rx key val =
     seqs [lit_i key, lit ''='', Sym is_quote, lit_i val, Sym is_quote,
           Star (Sym (\<lambda>c. c \<noteq> CHR ''>'')), lit_i ''content='', Sym is_quote,
           Group (Plus (Sym (\<lambda>c. \<not> is_quote c))), Sym is_quote]"

text \<open>\<open>og_price\<close>, lines 102 to 106.\<close>

definition og_price :: "string \<Rightarrow> real option" where
  "og_price text =
     (case re_search (meta_rx ''property'' ''product:price:amount'') text of
        Some m \<Rightarrow> price_of_group (fst (snd m))
      | None \<Rightarrow>
          (case re_search (meta_rx ''name'' ''twitter:data1'') text of
             Some m \<Rightarrow> price_of_group (fst (snd m))
           | None \<Rightarrow> None))"

subsection \<open>Retailer price fetch\<close>

text \<open>
  A tracked product, as the configuration gives it. An option field is \<open>None\<close> when
  the key is absent. \<open>price_regex\<close> is the pattern as \<open>re\<close> compiles it under
  \<open>re.I\<close>; \<open>None\<close> also stands for an empty pattern, which line 115 skips.
  \<open>baseline\<close> is \<open>Some b\<close> when the key holds a number (line 271).
\<close>

record product =
  p_id :: "string option"
  p_name :: "string option"
  p_url :: string
  price_regex :: "rx option"
  selector :: "string option"
  attr :: "string option"
  drop_percent :: "real option"
  p_baseline :: "real option"
  p_user_agent :: "string option"
  p_timeout :: "int option"

text \<open>\<open>min\<close> of a list of numbers; \<open>ValueError\<close> on the empty list.\<close>

definition py_min :: "real list \<Rightarrow> error + real" where
  "py_min xs = (case xs of [] \<Rightarrow> Inl ValueError | x # ys \<Rightarrow> Inr (fold min ys x))"

text \<open>Strategy 1 of \<open>fetch_product_price\<close>, lines 114 to 119. The result \<open>Inr (Some r)\<close>
  is the \<open>return\<close> of line 119 with value \<open>r\<close>; \<open>Inr None\<close> falls through.\<close>

definition pattern_strategy ::
  "('w, 'n) env \<Rightarrow> 'w \<Rightarrow> product \<Rightarrow> int \<Rightarrow> (string \<times> string) list
     \<Rightarrow> (error + real option option) \<times> 'w" where
  "pattern_strategy env w prd timeout headers =
     (case price_regex prd of
        None \<Rightarrow> (Inr None, w)
      | Some r \<Rightarrow>
          (case fetch_text env w (p_url prd) timeout headers of
             (Inl e, w') \<Rightarrow> (Inl e, w')
           | (Inr text, w') \<Rightarrow>
               (case re_search r text of
                  None \<Rightarrow> (Inr None, w')
                | Some m \<Rightarrow>
                    if has_group r then (Inr (Some (price_of_group (fst (snd m)))), w')
                    else (Inl NoSuchGroup, w'))))"

text \<open>Strategy 2, lines 121 to 129, on the fetched text. \<open>Inr (Some r)\<close> is a
  \<open>return\<close> with value \<open>r\<close> (lines 126 and 129); \<open>Inr None\<close> falls through.\<close>

definition structured_strategy :: "string \<Rightarrow> error + real option option" where
  "structured_strategy text =
     (let jl = jsonld_prices text
      in if jl \<noteq> []
         then (if list_ex (\<lambda>p. p > 0) jl
               then (case py_min (filter (\<lambda>p. p > 0) jl) of
                       Inl e \<Rightarrow> Inl e
                     | Inr p \<Rightarrow> Inr (Some (Some p)))
               else Inr (Some None))
         else (let og = og_price text
               in case og of
                    None \<Rightarrow> Inr None
                  | Some p \<Rightarrow> if p \<noteq> 0 then Inr (Some og) else Inr None))"

text \<open>Strategy 3, lines 131 to 138, and the final \<open>return None\<close> of line 140.\<close>

definition selector_strategy :: "('w, 'n) env \<Rightarrow> product \<Rightarrow> string \<Rightarrow> error + real option" where
  "selector_strategy env prd text =
     (case selector prd of
        None \<Rightarrow> Inr None
      | Some sel \<Rightarrow>
          if sel = [] then Inr None
          else (case fromstring env text of
                  Inl e \<Rightarrow> Inl e
                | Inr doc \<Rightarrow>
                    (case cssselect env doc sel of
                       Inl e \<Rightarrow> Inl e
                     | Inr nodes \<Rightarrow>
                         (case nodes of
                            [] \<Rightarrow> Inr None
                          | node # _ \<Rightarrow>
                              let got = (case attr prd of
                                           None \<Rightarrow> Some (text_content env node)
                                         | Some a \<Rightarrow>
                                             if a = [] then Some (text_content env node)
                                             else node_get env node a);
                                  raw = (case got of None \<Rightarrow> [] | Some v \<Rightarrow> v)
                              in Inr (extract_price_number raw)))))"

text \<open>\<open>fetch_product_price\<close>, lines 109 to 140.\<close>

definition fetch_product_price ::
  "('w, 'n) env \<Rightarrow> 'w \<Rightarrow> product \<Rightarrow> (error + real option) \<times> 'w" where
  "fetch_product_price env w prd =
     (let url = p_url prd;
          headers = [(''User-Agent'',
                      case p_user_agent prd of None \<Rightarrow> ''Mozilla/5.0'' | Some u \<Rightarrow> u)];
          timeout = (case p_timeout prd of None \<Rightarrow> 25 | Some t \<Rightarrow> t)
      in case pattern_strategy env w prd timeout headers of
           (Inl e, w1) \<Rightarrow> (Inl e, w1)
         | (Inr (Some r), w1) \<Rightarrow> (Inr r, w1)
         | (Inr None, w1) \<Rightarrow>
             (case fetch_text env w1 url timeout headers of
                (Inl e, w2) \<Rightarrow> (Inl e, w2)
              | (Inr text, w2) \<Rightarrow>
                  (case structured_strategy text of
                     Inl e \<Rightarrow> (Inl e, w2)
                   | Inr (Some r) \<Rightarrow> (Inr r, w2)
                   | Inr None \<Rightarrow> (selector_strategy env prd text, w2))))"

subsection \<open>Used search scraping\<close>

text \<open>\<open>text_ok\<close>, lines 143 to 149. An empty list and an absent key are both falsy.\<close>

definition text_ok :: "string \<Rightarrow> string list \<Rightarrow> string list \<Rightarrow> bool" where
  "text_ok s includes excludes =
     (let S = lower s
      in if includes \<noteq> [] \<and> \<not> list_all (\<lambda>k. py_in (lower k) S) includes then False
         else if excludes \<noteq> [] \<and> list_ex (\<lambda>k. py_in (lower k) S) excludes then False
         else True)"

text \<open>
  A tracked search, as the configuration gives it. \<open>alert_below\<close> and
  \<open>alert_percent_below_msrp\<close> are \<open>None\<close> when the key is absent.
\<close>

record search =
  s_id :: "string option"
  s_name :: "string option"
  s_url :: string
  item_selector :: string
  title_selector :: "string option"
  price_selector :: "string option"
  url_selector :: "string option"
  include_keywords :: "string list"
  exclude_keywords :: "string list"
  alert_below :: "real option"
  alert_percent_below_msrp :: "real option"
  s_user_agent :: "string option"
  s_timeout :: "int option"

text \<open>\<open>str.strip\<close>.\<close>

definition py_strip :: "string \<Rightarrow> string" where
  "py_strip s = rev (dropWhile is_space (rev (dropWhile is_space s)))"

text \<open>The first node a sub-selector finds in a card; nothing when the selector is not
  configured, finds no node, or raises (the \<open>except Exception: pass\<close> of each field).\<close>

definition first_node :: "('w, 'n) env \<Rightarrow> 'n \<Rightarrow> string option \<Rightarrow> 'n option" where
  "first_node env crd sel =
     (case sel of
        None \<Rightarrow> None
      | Some q \<Rightarrow>
          if q = [] then None
          else (case cssselect env crd q of
                  Inl e \<Rightarrow> None
                | Inr nodes \<Rightarrow> (case nodes of [] \<Rightarrow> None | n # _ \<Rightarrow> Some n)))"

text \<open>\<open>extract_items\<close>, lines 151 to 192: title (lines 159 to 165), url (lines 167 to
  180), price (lines 182 to 188) of one card, and the loop over the cards.\<close>

definition card_title :: "('w, 'n) env \<Rightarrow> search \<Rightarrow> 'n \<Rightarrow> string" where
  "card_title env cfg crd =
     (case first_node env crd (title_selector cfg) of
        None \<Rightarrow> []
      | Some t \<Rightarrow> py_strip (text_content env t))"

definition card_url :: "('w, 'n) env \<Rightarrow> search \<Rightarrow> 'n \<Rightarrow> string" where
  "card_url env cfg crd =
     (case first_node env crd (url_selector cfg) of
        None \<Rightarrow> []
      | Some u \<Rightarrow>
          let href = py_strip (case node_get env u ''href'' of None \<Rightarrow> [] | Some h \<Rightarrow> h)
          in if href \<noteq> [] \<and> starts_with href ''//'' then ''https:'' @ href
             else if href \<noteq> [] \<and> starts_with href ''/'' \<and> starts_with (s_url cfg) ''http''
             then urljoin env (s_url cfg) href
             else href)"

definition card_price :: "('w, 'n) env \<Rightarrow> search \<Rightarrow> 'n \<Rightarrow> real option" where
  "card_price env cfg crd =
     (case first_node env crd (price_selector cfg) of
        None \<Rightarrow> None
      | Some p \<Rightarrow> extract_price_number (text_content env p))"

type_synonym candidate = "string \<times> string \<times> real option"

definition extract_items :: "('w, 'n) env \<Rightarrow> 'n \<Rightarrow> search \<Rightarrow> error + candidate list" where
  "extract_items env doc cfg =
     (case cssselect env doc (item_selector cfg) of
        Inl e \<Rightarrow> Inl e
      | Inr cards \<Rightarrow>
          Inr (List.map_filter
                 (\<lambda>crd. let title = card_title env cfg crd;
                              url = card_url env cfg crd;
                              price = card_price env cfg crd
                          in if title \<noteq> [] \<or> url \<noteq> [] then Some (title, url, price) else None)
                 cards))"

text \<open>
  The body of the loop of \<open>search_used_market\<close>, lines 205 to 223, for one candidate:
  the match it appends to \<open>results\<close>, if any. A number is truthy when it is not zero.
\<close>

definition check_candidate :: "search \<Rightarrow> string set \<Rightarrow> real option \<Rightarrow> candidate \<Rightarrow> match option" where
  "check_candidate scfg seen msrp cand =
     (case cand of (title, url, price) \<Rightarrow>
        if \<not> text_ok title (include_keywords scfg) (exclude_keywords scfg) then None
        else if url \<noteq> [] \<and> url \<in> seen then None
        else if alert_below scfg \<noteq> None \<and> alert_below scfg \<noteq> Some 0 \<and> price \<noteq> None
                \<and> the price \<le> the (alert_below scfg)
        then Some \<lparr>m_title = title, m_url = url, m_price = price,
                   m_reason = BelowCeiling (the (alert_below scfg))\<rparr>
        else if msrp \<noteq> None \<and> msrp \<noteq> Some 0
                \<and> alert_percent_below_msrp scfg \<noteq> None \<and> alert_percent_below_msrp scfg \<noteq> Some 0
                \<and> price \<noteq> None
        then (let drop = pct_drop (the msrp) (the price)
              in if drop \<ge> the (alert_percent_below_msrp scfg)
                 then Some \<lparr>m_title = title, m_url = url, m_price = price,
                            m_reason = BelowMsrp drop\<rparr>
                 else None)
        else None)"

text \<open>\<open>search_used_market\<close>, lines 194 to 225.\<close>

definition search_used_market ::
  "('w, 'n) env \<Rightarrow> 'w \<Rightarrow> search \<Rightarrow> string set \<Rightarrow> real option \<Rightarrow> (error + match list) \<times> 'w" where
  "search_used_market env w scfg seen msrp =
     (let headers = [(''User-Agent'',
                      case s_user_agent scfg of None \<Rightarrow> ''Mozilla/5.0'' | Some u \<Rightarrow> u)]
      in case fetch_doc env w (s_url scfg) (case s_timeout scfg of None \<Rightarrow> 25 | Some t \<Rightarrow> t)
                headers of
           (Inl e, w') \<Rightarrow> (Inl e, w')
         | (Inr doc, w') \<Rightarrow>
             (case extract_items env doc scfg of
                Inl e \<Rightarrow> (Inl e, w')
              | Inr candidates \<Rightarrow>
                  (Inr (List.map_filter (check_candidate scfg seen msrp) candidates), w')))"

subsection \<open>Main\<close>

text \<open>
  The state file. An entry of a product is the dictionary \<open>st\<close> of line 256: a field is
  \<open>None\<close> while its key is absent, as in the empty dictionary \<open>setdefault\<close> creates. An
  entry of a search is \<open>None\<close> for the empty dictionary and \<open>Some xs\<close> when the key
  \<open>seen\<close> holds the list \<open>xs\<close>.
\<close>

record prod_state =
  baseline :: "real option"
  history :: "(int \<times> real) list option"
  last_price :: "real option"
  st_url :: "string option"
  st_name :: "string option"

definition empty_prod_state :: prod_state where
  "empty_prod_state =
     \<lparr>baseline = None, history = None, last_price = None, st_url = None, st_name = None\<rparr>"

record ledger =
  products :: "string \<rightharpoonup> prod_state"
  searches :: "string \<rightharpoonup> string list option"

text \<open>The configuration. \<open>smtp_keys\<close> lists the keys of the \<open>smtp\<close> block, \<open>None\<close>
  without the block.\<close>

record config =
  default_drop_percent :: "real option"
  c_msrp :: "real option"
  smtp_keys :: "string list option"
  c_products :: "product list"
  c_searches :: "search list"

text \<open>What \<open>logging\<close> receives, by the call that logs it.\<close>

datatype log =
    WarnSmtp
  | ErrFetch string error
  | ErrNoPrice string
  | InfoBaselineInit string real
  | InfoRetailer string real real real real
  | InfoEmailSent string
  | ErrEmail error
  | ErrUsedSearch string error
  | ErrUsedEmail error

text \<open>\<open>xs[-n:]\<close>.\<close>

definition last_n :: "nat \<Rightarrow> 'a list \<Rightarrow> 'a list" where
  "last_n n xs = drop (length xs - n) xs"

text \<open>\<open>x.get("id") or x["url"]\<close>, lines 255 and 309.\<close>

definition id_or_url :: "string option \<Rightarrow> string \<Rightarrow> string" where
  "id_or_url i url = (case i of None \<Rightarrow> url | Some s \<Rightarrow> if s = [] then url else s)"

text \<open>Line 249.\<close>

definition smtp_ok :: "config \<Rightarrow> bool" where
  "smtp_ok cfg =
     (case smtp_keys cfg of
        None \<Rightarrow> False
      | Some ks \<Rightarrow>
          list_all (\<lambda>k. k \<in> set ks) [''host'', ''username'', ''password'', ''from'', ''to''])"

text \<open>
  What a run carries from one turn of a loop to the next: the state, what was logged, the
  alert payloads built so far (the subject and body of lines 294 to 298 and 326 to 327,
  built whether or not mail is configured), and the world.
\<close>

type_synonym 'w run = "ledger \<times> log list \<times> email list \<times> 'w"

text \<open>One turn of the loop over the products, lines 254 to 304.\<close>

definition process_product :: "('w, 'n) env \<Rightarrow> config \<Rightarrow> 'w run \<Rightarrow> product \<Rightarrow> 'w run" where
  "process_product env cfg run prd =
     (case run of (state, logs, alerts, w) \<Rightarrow>
      let pid = id_or_url (p_id prd) (p_url prd);
          st = (case products state pid of None \<Rightarrow> empty_prod_state | Some s \<Rightarrow> s);
          state0 = state\<lparr>products := (products state)(pid \<mapsto> st)\<rparr>
      in case fetch_product_price env w prd of
           (Inl e, w1) \<Rightarrow> (state0, logs @ [ErrFetch pid e], alerts, w1)
         | (Inr None, w1) \<Rightarrow> (state0, logs @ [ErrNoPrice pid], alerts, w1)
         | (Inr (Some price), w1) \<Rightarrow>
             (case time_now env w1 of (now, w2) \<Rightarrow>
              let configured = (case p_baseline prd of Some b \<Rightarrow> Some b | None \<Rightarrow> baseline st);
                  b = (case configured of None \<Rightarrow> price | Some b \<Rightarrow> b);
                  logs1 = (case configured of
                             None \<Rightarrow> logs @ [InfoBaselineInit pid price]
                           | Some b \<Rightarrow> logs);
                  drop_needed = (case drop_percent prd of
                                   Some d \<Rightarrow> d
                                 | None \<Rightarrow> (case default_drop_percent cfg of
                                              Some d \<Rightarrow> d
                                            | None \<Rightarrow> 10));
                  drop_now = pct_drop b price;
                  name = (case p_name prd of Some n \<Rightarrow> n | None \<Rightarrow> pid);
                  logs2 = logs1 @ [InfoRetailer name price b drop_now drop_needed];
                  hist = (case history st of None \<Rightarrow> [] | Some h \<Rightarrow> h) @ [(now, price)];
                  st' = st\<lparr>history := Some (last_n 300 hist), last_price := Some price,
                           baseline := Some b, st_url := Some (p_url prd),
                           st_name := Some name\<rparr>;
                  state1 = state0\<lparr>products := (products state0)(pid \<mapsto> st')\<rparr>;
                  mail = RetailDrop name (p_url prd) price b drop_now drop_needed
              in if drop_now \<ge> drop_needed
                 then (if smtp_ok cfg
                       then (case send_email env w2 mail of
                               (None, w3) \<Rightarrow>
                                 (state1, logs2 @ [InfoEmailSent pid], alerts @ [mail], w3)
                             | (Some e, w3) \<Rightarrow>
                                 (state1, logs2 @ [ErrEmail e], alerts @ [mail], w3))
                       else (state1, logs2, alerts @ [mail], w2))
                 else (state1, logs2, alerts, w2)))"

text \<open>One turn of the loop over the searches, lines 308 to 334. \<open>msrp\<close> is the value
  of line 307.\<close>

definition process_search :: "('w, 'n) env \<Rightarrow> config \<Rightarrow> real \<Rightarrow> 'w run \<Rightarrow> search \<Rightarrow> 'w run" where
  "process_search env cfg msrp run scfg =
     (case run of (state, logs, alerts, w) \<Rightarrow>
      let sid = id_or_url (s_id scfg) (s_url scfg);
          sstate = (case searches state sid of None \<Rightarrow> None | Some s \<Rightarrow> s);
          state0 = state\<lparr>searches := (searches state)(sid \<mapsto> sstate)\<rparr>;
          seen = set (case sstate of None \<Rightarrow> [] | Some xs \<Rightarrow> xs)
      in case search_used_market env w scfg seen (if msrp > 0 then Some msrp else None) of
           (Inl e, w1) \<Rightarrow> (state0, logs @ [ErrUsedSearch sid e], alerts, w1)
         | (Inr matches, w1) \<Rightarrow>
             let name = (case s_name scfg of Some n \<Rightarrow> n | None \<Rightarrow> sid);
                 mail = UsedFinds name (s_url scfg) matches;
                 seen' = (if matches \<noteq> []
                          then seen \<union> set (filter (\<lambda>u. u \<noteq> []) (map m_url matches))
                          else seen);
                 sent = (if matches \<noteq> [] \<and> smtp_ok cfg
                         then (case send_email env w1 mail of
                                 (None, w2) \<Rightarrow> (logs, w2)
                               | (Some e, w2) \<Rightarrow> (logs @ [ErrUsedEmail e], w2))
                         else (logs, w1));
                 state1 = state0\<lparr>searches := (searches state0)
                            (sid \<mapsto> Some (last_n 2000 (sorted_list_of_set seen')))\<rparr>
             in (state1, fst sent, (if matches \<noteq> [] then alerts @ [mail] else alerts),
                 snd sent))"

text \<open>\<open>main\<close>, lines 241 to 336, from the loaded configuration and state: the state it
  saves, what it logged, the alert payloads it built, and the world after the run.\<close>

definition main :: "('w, 'n) env \<Rightarrow> config \<Rightarrow> ledger \<Rightarrow> 'w \<Rightarrow> 'w run" where
  "main env cfg state w =
     (let logs0 = (if \<not> smtp_ok cfg then [WarnSmtp] else []);
          run1 = foldl (process_product env cfg) (state, logs0, [], w) (c_products cfg);
          msrp = (case c_msrp cfg of None \<Rightarrow> 0 | Some m \<Rightarrow> m)
      in foldl (process_search env cfg msrp) run1 (c_searches cfg))"

text \<open>Successive runs of \<open>main\<close>, one per configuration of the list: each run loads the
  state the run before saved. The result is the state saved last, with the alert
  payloads of every run in order.\<close>

fun main_runs ::
  "('w, 'n) env \<Rightarrow> config list \<Rightarrow> ledger \<Rightarrow> 'w \<Rightarrow> ledger \<times> email list list \<times> 'w" where
  "main_runs env [] state w = (state, [], w)"
| "main_runs env (cfg # cfgs) state w =
     (case main env cfg state w of
        (state', logs, alerts, w') \<Rightarrow>
          (case main_runs env cfgs state' w' of
             (state'', later, w'') \<Rightarrow> (state'', alerts # later, w'')))"

section \<open>Notions used to state the properties\<close>

subsection \<open>The price parser in the words of its specification\<close>

text \<open>A separator is a dot or a comma.\<close>

definition is_sep :: "char \<Rightarrow> bool" where
  "is_sep c = (c = CHR ''.'' \<or> c = CHR '','')"

text \<open>
  The \<open>integer[.fraction]\<close> token at the start of a string that starts with a digit:
  the digits, and a dot with the digits after it when at least one digit follows the dot.
\<close>

definition number_token :: "string \<Rightarrow> string" where
  "number_token t =
     (let ip = takeWhile is_digit t; r = dropWhile is_digit t
      in case r of
           d # f # u \<Rightarrow>
             if d = CHR ''.'' \<and> is_digit f then ip @ d # takeWhile is_digit (f # u) else ip
         | _ \<Rightarrow> ip)"

text \<open>What follows that token.\<close>

definition num_rest :: "string \<Rightarrow> string" where
  "num_rest t =
     (let r = dropWhile is_digit t
      in case r of
           d # f # u \<Rightarrow> if d = CHR ''.'' \<and> is_digit f then dropWhile is_digit u else r
         | _ \<Rightarrow> r)"

text \<open>The first token of a string: the token at its first digit, if it has a digit.\<close>

definition first_number_token :: "string \<Rightarrow> string option" where
  "first_number_token s =
     (let t = dropWhile (\<lambda>c. \<not> is_digit c) s
      in if t = [] then None else Some (number_token t))"

text \<open>The fraction part \<open>\.\d+\<close> of the number pattern.\<close>

definition frac_rx :: rx where
  "frac_rx = Seq (Sym (\<lambda>c. c = CHR ''.'')) (Plus (Sym is_digit))"

subsection \<open>Reading the ledger and the configuration\<close>

text \<open>The key of a product and of a search in the ledger (lines 255 and 309).\<close>

definition pid_of :: "product \<Rightarrow> string" where
  "pid_of prd = id_or_url (p_id prd) (p_url prd)"

definition sid_of :: "search \<Rightarrow> string" where
  "sid_of scfg = id_or_url (s_id scfg) (s_url scfg)"

text \<open>The SeenSet of a search in a ledger (line 311), and the baseline of a product.\<close>

definition seen_of :: "ledger \<Rightarrow> string \<Rightarrow> string set" where
  "seen_of state sid =
     set (case searches state sid of None \<Rightarrow> [] | Some None \<Rightarrow> [] | Some (Some xs) \<Rightarrow> xs)"

definition baseline_of :: "ledger \<Rightarrow> string \<Rightarrow> real option" where
  "baseline_of state pid = (case products state pid of None \<Rightarrow> None | Some st \<Rightarrow> baseline st)"

text \<open>The reference price \<open>search_used_market\<close> receives (line 314).\<close>

definition msrp_arg :: "real \<Rightarrow> real option" where
  "msrp_arg msrp = (if msrp > 0 then Some msrp else None)"

text \<open>The non-empty URLs of a list of matches (lines 324 and 325).\<close>

definition urls_of :: "match list \<Rightarrow> string set" where
  "urls_of ms = {u \<in> m_url ` set ms. u \<noteq> []}"

text \<open>The arguments of the fetch of a search (lines 195 and 196).\<close>

definition s_headers :: "search \<Rightarrow> (string \<times> string) list" where
  "s_headers scfg =
     [(''User-Agent'', case s_user_agent scfg of None \<Rightarrow> ''Mozilla/5.0'' | Some u \<Rightarrow> u)]"

definition s_timeout_of :: "search \<Rightarrow> int" where
  "s_timeout_of scfg = (case s_timeout scfg of None \<Rightarrow> 25 | Some t \<Rightarrow> t)"

text \<open>The parts of a run.\<close>

definition run_state :: "'w run \<Rightarrow> ledger" where
  "run_state run = fst run"

definition run_logs :: "'w run \<Rightarrow> log list" where
  "run_logs run = fst (snd run)"

definition run_alerts :: "'w run \<Rightarrow> email list" where
  "run_alerts run = fst (snd (snd run))"

definition run_world :: "'w run \<Rightarrow> 'w" where
  "run_world run = snd (snd (snd run))"

text \<open>The reference price of a configuration (line 307).\<close>

definition msrp_of :: "config \<Rightarrow> real" where
  "msrp_of cfg = (case c_msrp cfg of None \<Rightarrow> 0 | Some m \<Rightarrow> m)"

section \<open>A small world for the examples\<close>

text \<open>
  Concrete values at which the theorems below are instantiated. A document is a tree
  of tagged nodes; the stand-in for \<open>cssselect\<close> finds the descendants with a given tag.
  The world is the number of calls made so far.
\<close>

datatype node = Node (n_tag: string) (n_attrs: "(string \<times> string) list") (n_text: string)
  (n_kids: "node list")

fun descendants :: "node \<Rightarrow> node list" where
  "descendants (Node t a x ks) = concat (map (\<lambda>k. k # descendants k) ks)"

definition toy_env ::
  "(string \<Rightarrow> nat \<Rightarrow> error + string) \<Rightarrow> (string \<Rightarrow> error + node) \<Rightarrow> (nat \<Rightarrow> bool)
     \<Rightarrow> (nat, node) env" where
  "toy_env site parse mail_ok =
     \<lparr>http_get = (\<lambda>w url headers timeout. (site url w, Suc w)),
      fromstring = parse,
      cssselect = (\<lambda>n sel. Inr (filter (\<lambda>k. n_tag k = sel) (descendants n))),
      text_content = n_text,
      node_get = (\<lambda>n a. map_of (n_attrs n) a),
      urljoin = (\<lambda>base href. base @ href),
      send_email = (\<lambda>w mail. (if mail_ok w then None else Some SmtpError, Suc w)),
      time_now = (\<lambda>w. (int w, Suc w))\<rparr>"

text \<open>Writes a page with a backquote for every double quote.\<close>

definition dq :: "string \<Rightarrow> string" where
  "dq s = map (\<lambda>c. if c = CHR ''`'' then CHR 0x22 else c) s"

definition foil_search :: search where
  "foil_search =
     \<lparr>s_id = Some ''foil'', s_name = Some ''Foil boards'',
      s_url = ''https://used.example/search'',
      item_selector = ''li'', title_selector = Some ''h3'', price_selector = Some ''b'',
      url_selector = Some ''a'',
      include_keywords = [''6'7''], exclude_keywords = [''90L''],
      alert_below = Some 2300, alert_percent_below_msrp = Some 10,
      s_user_agent = None, s_timeout = None\<rparr>"

text \<open>A listing page with two cards; the first has no link.\<close>

definition used_page :: node where
  "used_page =
     Node ''ul'' [] []
       [Node ''li'' [] []
          [Node ''h3'' [] ''6'7 foil 110L'' [], Node ''b'' [] ''$2,000.00'' []],
        Node ''li'' [] []
          [Node ''h3'' [] '' 6'7 foil 110L pro '' [], Node ''b'' [] ''$2,100.00'' [],
           Node ''a'' [(''href'', ''https://used.example/item/2'')] [] []]]"

definition used_env :: "(nat, node) env" where
  "used_env = toy_env (\<lambda>url k. Inr ''<ul>'') (\<lambda>body. Inr used_page) (\<lambda>k. True)"

definition used_cfg :: config where
  "used_cfg =
     \<lparr>default_drop_percent = None, c_msrp = None, smtp_keys = None,
      c_products = [], c_searches = [foil_search]\<rparr>"

definition empty_ledger :: ledger where
  "empty_ledger = \<lparr>products = Map.empty, searches = Map.empty\<rparr>"

definition match_1 :: match where
  "match_1 = \<lparr>m_title = ''6'7 foil 110L'', m_url = [], m_price = Some 2000,
              m_reason = BelowCeiling 2300\<rparr>"

definition match_2 :: match where
  "match_2 = \<lparr>m_title = ''6'7 foil 110L pro'', m_url = ''https://used.example/item/2'',
              m_price = Some 2100, m_reason = BelowCeiling 2300\<rparr>"

section \<open>Properties\<close>

subsection \<open>Strings\<close>

lemma starts_with_prefix: "starts_with s p \<longleftrightarrow> prefix p s"
  by (induction s p rule: starts_with.induct) auto

lemma py_in_sublist: "py_in needle hay \<longleftrightarrow> sublist needle hay"
  by (induction hay) (auto simp: starts_with_prefix sublist_Cons_right)

subsection \<open>Matching the number pattern\<close>

lemma rmatch_Star_Sym_Cons:
  "rmatch (Star (Sym p)) (g, c # cs) =
     (if p c then rmatch (Star (Sym p)) (g, cs) @ [(g, c # cs)] else [(g, c # cs)])"
  by (subst rmatch.simps(6)) simp

lemma rmatch_Star_Sym_Nil: "rmatch (Star (Sym p)) (g, []) = [(g, [])]"
  by (subst rmatch.simps(6)) simp

lemma hd_concat_map:
  "xs \<noteq> [] \<Longrightarrow> f (hd xs) \<noteq> [] \<Longrightarrow>
     concat (map f xs) \<noteq> [] \<and> hd (concat (map f xs)) = hd (f (hd xs))"
  by (cases xs) auto

lemma rmatch_Star_Sym:
  "rmatch (Star (Sym p)) (g, s) \<noteq> [] \<and> hd (rmatch (Star (Sym p)) (g, s)) = (g, dropWhile p s)"
  by (induction s) (simp_all add: rmatch_Star_Sym_Cons rmatch_Star_Sym_Nil)

lemma rmatch_Plus_Sym:
  "rmatch (Plus (Sym p)) (g, s) =
     (case s of [] \<Rightarrow> [] | c # cs \<Rightarrow> if p c then rmatch (Star (Sym p)) (g, cs) else [])"
  by (cases s) (simp_all add: Plus_def)

lemma rmatch_frac:
  "rmatch frac_rx (g, t) =
     (case t of
        x # y # u \<Rightarrow> if x = CHR ''.'' \<and> is_digit y then rmatch (Star (Sym is_digit)) (g, u) else []
      | _ \<Rightarrow> [])"
  by (cases t) (auto simp: frac_rx_def rmatch_Plus_Sym split: list.splits)

lemma rmatch_Opt_frac:
  "rmatch (Opt frac_rx) (g, r) \<noteq> [] \<and>
   hd (rmatch (Opt frac_rx) (g, r)) =
     (g, case r of
           d # f # u \<Rightarrow> if d = CHR ''.'' \<and> is_digit f then dropWhile is_digit u else r
         | _ \<Rightarrow> r)"
  using rmatch_Star_Sym [of is_digit g]
  by (auto simp: rmatch_frac split: list.splits)

lemma number_rx_alt: "number_rx = Seq (Plus (Sym is_digit)) (Opt frac_rx)"
  by (simp add: number_rx_def frac_rx_def)

lemma rmatch_number_digit:
  assumes "is_digit c"
  shows "rmatch number_rx (g, c # cs) \<noteq> [] \<and>
         hd (rmatch number_rx (g, c # cs)) = (g, num_rest (c # cs))"
proof -
  let ?L = "rmatch (Star (Sym is_digit)) (g, cs)"
  let ?R = "rmatch (Opt frac_rx)"
  have L: "?L \<noteq> []" "hd ?L = (g, dropWhile is_digit cs)"
    using rmatch_Star_Sym [of is_digit g cs] by simp_all
  have eq: "rmatch number_rx (g, c # cs) = concat (map ?R ?L)"
    using assms by (simp add: number_rx_alt rmatch_Plus_Sym)
  have ne: "?R (hd ?L) \<noteq> []"
    unfolding L(2) using rmatch_Opt_frac [of g "dropWhile is_digit cs"] by blast
  have h1: "concat (map ?R ?L) \<noteq> []"
    and h2: "hd (concat (map ?R ?L)) = hd (?R (hd ?L))"
    using hd_concat_map [of ?L ?R, OF L(1) ne] by blast+
  have nr: "num_rest (c # cs) =
      (case dropWhile is_digit cs of
         d # f # u \<Rightarrow> if d = CHR ''.'' \<and> is_digit f then dropWhile is_digit u
                      else dropWhile is_digit cs
       | _ \<Rightarrow> dropWhile is_digit cs)"
    using assms by (simp add: num_rest_def Let_def)
  have h3: "hd (?R (hd ?L)) = (g, num_rest (c # cs))"
    unfolding L(2) nr using rmatch_Opt_frac [of g "dropWhile is_digit cs"] by blast
  show ?thesis
    unfolding eq h2 h3 by (rule conjI [OF h1 refl])
qed

lemma rmatch_number_nondigit:
  "\<not> is_digit c \<Longrightarrow> rmatch number_rx (g, c # cs) = []"
  by (simp add: number_rx_alt rmatch_Plus_Sym)

lemma rmatch_number_Nil: "rmatch number_rx (g, []) = []"
  by (simp add: number_rx_alt rmatch_Plus_Sym)


lemma number_token_rest: "number_token t @ num_rest t = t"
proof -
  have split: "takeWhile is_digit t @ dropWhile is_digit t = t" by simp
  show ?thesis
  proof (cases "dropWhile is_digit t")
    case Nil
    from split have "takeWhile is_digit t = t" unfolding Nil by simp
    then show ?thesis unfolding number_token_def num_rest_def Let_def Nil by simp
  next
    case (Cons d r')
    note r = this
    show ?thesis
    proof (cases r')
      case Nil
      with r split show ?thesis by (simp add: number_token_def num_rest_def Let_def)
    next
      case (Cons f u)
      show ?thesis
      proof (cases "d = CHR ''.'' \<and> is_digit f")
        case True
        have "takeWhile is_digit t @ d # f # (takeWhile is_digit u @ dropWhile is_digit u) = t"
          using split r Cons by simp
        with True r Cons show ?thesis
          by (simp add: number_token_def num_rest_def Let_def)
      next
        case False
        with r Cons split show ?thesis
          by (auto simp add: number_token_def num_rest_def Let_def)
      qed
    qed
  qed
qed

lemma take_number_token: "take (length t - length (num_rest t)) t = number_token t"
proof -
  have "length t = length (number_token t) + length (num_rest t)"
    by (metis number_token_rest length_append)
  then have "take (length t - length (num_rest t)) (number_token t @ num_rest t) = number_token t"
    by simp
  then show ?thesis by (simp only: number_token_rest)
qed

lemma re_search_number: "map_option fst (re_search number_rx s) = first_number_token s"
proof (induction s)
  case Nil
  show ?case by (simp add: rmatch_number_Nil first_number_token_def)
next
  case (Cons c cs)
  show ?case
  proof (cases "is_digit c")
    case True
    obtain m ms where m: "rmatch number_rx (None, c # cs) = m # ms"
      using rmatch_number_digit [OF True, of None cs] by (cases "rmatch number_rx (None, c # cs)") auto
    with rmatch_number_digit [OF True, of None cs] have "snd m = num_rest (c # cs)" by simp
    with m True take_number_token [of "c # cs"] show ?thesis
      by (simp add: first_number_token_def)
  next
    case False
    with Cons show ?thesis
      by (simp add: rmatch_number_nondigit first_number_token_def)
  qed
qed

lemma rfind_ge: "- 1 \<le> rfind s c"
  by (induction s) (auto simp: Let_def)

lemma rfind_nonneg_iff: "0 \<le> rfind s c \<longleftrightarrow> c \<in> set s"
  by (induction s) (auto simp: Let_def)

lemma rfind_absent: "c \<notin> set s \<Longrightarrow> rfind s c = - 1"
  using rfind_ge [of s c] rfind_nonneg_iff [of s c] by linarith

lemma rfind_last_sep:
  "rfind s CHR '','' > rfind s CHR ''.'' \<longleftrightarrow>
     filter is_sep s \<noteq> [] \<and> last (filter is_sep s) = CHR '',''"
proof (induction s)
  case Nil
  show ?case by simp
next
  case (Cons x xs)
  consider (cd) "CHR '','' \<in> set xs" "CHR ''.'' \<in> set xs"
    | (c) "CHR '','' \<in> set xs" "CHR ''.'' \<notin> set xs"
    | (d) "CHR '','' \<notin> set xs" "CHR ''.'' \<in> set xs"
    | (n) "CHR '','' \<notin> set xs" "CHR ''.'' \<notin> set xs"
    by blast
  then show ?case
  proof cases
    case cd
    then have ne: "filter is_sep xs \<noteq> []"
      by (auto simp: filter_empty_conv is_sep_def)
    from cd have "0 \<le> rfind xs CHR '',''" "0 \<le> rfind xs CHR ''.''"
      by (simp_all add: rfind_nonneg_iff)
    with Cons ne show ?thesis by (auto simp add: Let_def)
  next
    case c
    then have ne: "filter is_sep xs \<noteq> []"
      by (auto simp: filter_empty_conv is_sep_def)
    from c have r: "0 \<le> rfind xs CHR '',''" "rfind xs CHR ''.'' = - 1"
      by (simp_all add: rfind_nonneg_iff rfind_absent)
    with Cons have "last (filter is_sep xs) = CHR '',''" using ne by simp
    with r ne show ?thesis by (simp add: Let_def)
  next
    case d
    then have ne: "filter is_sep xs \<noteq> []"
      by (auto simp: filter_empty_conv is_sep_def)
    from d have r: "rfind xs CHR '','' = - 1" "0 \<le> rfind xs CHR ''.''"
      by (simp_all add: rfind_nonneg_iff rfind_absent)
    with Cons have "last (filter is_sep xs) \<noteq> CHR '',''" using ne by simp
    with r ne show ?thesis by (simp add: Let_def)
  next
    case n
    then have e: "filter is_sep xs = []"
      by (auto simp: filter_empty_conv is_sep_def)
    from n have r: "rfind xs CHR '','' = - 1" "rfind xs CHR ''.'' = - 1"
      by (simp_all add: rfind_absent)
    have sx: "is_sep x \<longleftrightarrow> x = CHR ''.'' \<or> x = CHR '',''"
      by (simp add: is_sep_def)
    from e r sx show ?thesis by (auto simp add: Let_def)
  qed
qed

subsection \<open>The price parser\<close>

lemma replace_delete: "replace s c [] = filter (\<lambda>x. x \<noteq> c) s"
  by (induction s) (simp_all add: replace_def)

lemma replace_single: "replace s c [d] = map (\<lambda>x. if x = c then d else x) s"
  by (induction s) (simp_all add: replace_def)

lemma extract_price_number_char:
  "extract_price_number text =
     (let cleaned = filter (\<lambda>c. is_digit c \<or> c = CHR ''.'' \<or> c = CHR '','') text
      in if cleaned = [] then None
         else let seps = filter is_sep cleaned;
                  main = (if seps \<noteq> [] \<and> last seps = CHR '',''
                          then map (\<lambda>c. if c = CHR '','' then CHR ''.'' else c)
                                 (filter (\<lambda>c. c \<noteq> CHR ''.'') cleaned)
                          else filter (\<lambda>c. c \<noteq> CHR '','') cleaned)
              in map_option py_float (first_number_token main))"
proof -
  have opt: "(case re_search number_rx m of None \<Rightarrow> None | Some x \<Rightarrow> Some (py_float (fst x)))
             = map_option py_float (first_number_token m)" for m
    by (simp add: re_search_number [symmetric] option.map_comp comp_def split: option.splits)
  show ?thesis
    by (cases "text = []")
       (simp_all add: extract_price_number_def Let_def re_sub_delete_def opt rfind_last_sep
          replace_delete replace_single)
qed

lemma py_float_nonneg: "0 \<le> py_float tok"
  by (simp add: py_float_def Let_def)

lemma extract_price_number_nonneg: "extract_price_number text = Some p \<Longrightarrow> 0 \<le> p"
  by (auto simp: extract_price_number_def Let_def py_float_nonneg split: if_splits option.splits)

lemmas epn_eval = extract_price_number_def re_sub_delete_def replace_def number_rx_def Plus_def
  is_digit_def py_float_def nat_of_digits_def digit_val_def rmatch.simps

text \<open>
  Claim C2, as the code has it. For every text, the parser keeps the digits, dots and
  commas; it returns nothing when none is left; when the last separator left is a comma
  it removes every dot and turns every comma into a dot, otherwise it removes every
  comma; and it returns the value of the first \<open>integer[.fraction]\<close> token of the
  result, or nothing when there is no digit. \<open>2,747.00\<close> and \<open>2.747,00\<close> parse
  to \<open>2747\<close>, the empty text and \<open>abc\<close> to nothing, and \<open>$1,299\<close> parses to
  \<open>1.299\<close>: its only separator is a comma, so that comma is the decimal point.
\<close>

theorem extract_price_number_spec:
  "extract_price_number text =
     (let cleaned = filter (\<lambda>c. is_digit c \<or> c = CHR ''.'' \<or> c = CHR '','') text
      in if cleaned = [] then None
         else let seps = filter is_sep cleaned;
                  main = (if seps \<noteq> [] \<and> last seps = CHR '',''
                          then map (\<lambda>c. if c = CHR '','' then CHR ''.'' else c)
                                 (filter (\<lambda>c. c \<noteq> CHR ''.'') cleaned)
                          else filter (\<lambda>c. c \<noteq> CHR '','') cleaned)
              in map_option py_float (first_number_token main))
   \<and> extract_price_number ''2,747.00'' = Some 2747
   \<and> extract_price_number ''2.747,00'' = Some 2747
   \<and> extract_price_number ''$1,299'' = Some (1299 / 1000)
   \<and> extract_price_number [] = None
   \<and> extract_price_number ''abc'' = None"
proof -
  have ex: "extract_price_number ''2,747.00'' = Some 2747
      \<and> extract_price_number ''2.747,00'' = Some 2747
      \<and> extract_price_number ''$1,299'' = Some (1299 / 1000)
      \<and> extract_price_number [] = None
      \<and> extract_price_number ''abc'' = None"
    by (simp add: epn_eval)
  from extract_price_number_char [of "text"] ex show ?thesis by blast
qed

text \<open>The theorem at \<open>EUR 1.234,50\<close>: the last separator is the comma.\<close>

theorem extract_price_number_spec_witness:
  "extract_price_number ''EUR 1.234,50'' = map_option py_float (first_number_token ''1234.50'')
   \<and> first_number_token ''1234.50'' = Some ''1234.50''
   \<and> py_float ''1234.50'' = 2469 / 2"
proof -
  have a: "extract_price_number ''EUR 1.234,50''
           = map_option py_float (first_number_token ''1234.50'')"
    using extract_price_number_spec [of "''EUR 1.234,50''"]
    by (simp add: is_digit_def is_sep_def)
  have b: "first_number_token ''1234.50'' = Some ''1234.50''"
    by (simp add: first_number_token_def number_token_def is_digit_def)
  have c: "py_float ''1234.50'' = 2469 / 2"
    by (simp add: py_float_def nat_of_digits_def digit_val_def)
  from a b c show ?thesis by blast
qed

text \<open>
  Claim C2 as the specification states it fails: it gives \<open>1299\<close> for \<open>$1,299\<close>, and
  with two commas the last comma is not the decimal point of the result.
\<close>

theorem extract_price_number_counterexample:
  "extract_price_number ''$1,299'' \<noteq> Some 1299
   \<and> extract_price_number ''1,234,56'' = Some (1234 / 1000)"
  by (simp add: epn_eval)

subsection \<open>Percent drop\<close>

text \<open>
  Claim C3. For all numbers \<open>old\<close> and \<open>new\<close>, \<open>pct_drop old new\<close> is
  \<open>((old - new) / old) * 100\<close> when \<open>old > 0\<close> and \<open>0\<close> otherwise; a \<open>new\<close> above a
  positive \<open>old\<close> gives a negative percentage, not an error; and
  \<open>pct_drop 100 90 = 10\<close>, \<open>pct_drop 100 110 = -10\<close>, \<open>pct_drop 0 50 = 0\<close>.
\<close>

theorem pct_drop_spec:
  "pct_drop old new = (if old > 0 then ((old - new) / old) * 100 else 0)
   \<and> (old > 0 \<and> new > old \<longrightarrow> pct_drop old new < 0)
   \<and> pct_drop 100 90 = 10 \<and> pct_drop 100 110 = -10 \<and> pct_drop 0 50 = 0"
proof -
  have neg: "pct_drop old new < 0" if "old > 0" "new > old"
  proof -
    have quot: "(old - new) / old < 0"
      by (rule divide_neg_pos) (use that in simp_all)
    have lt: "((old - new) / old) * 100 < 0"
      by (rule mult_neg_pos [OF quot]) simp
    have val: "pct_drop old new = ((old - new) / old) * 100"
      using that by (simp add: pct_drop_def)
    show ?thesis unfolding val by (rule lt)
  qed
  have eq: "pct_drop old new = (if old > 0 then ((old - new) / old) * 100 else 0)"
    by (simp add: pct_drop_def)
  have ex: "pct_drop 100 90 = 10 \<and> pct_drop 100 110 = -10 \<and> pct_drop 0 50 = 0"
    by (simp add: pct_drop_def)
  from neg eq ex show ?thesis by blast
qed

theorem pct_drop_spec_witness:
  "pct_drop 1000 899 = 101 / 10 \<and> pct_drop 1000 1100 < 0 \<and> pct_drop (-3) 7 = 0"
  using pct_drop_spec [of 1000 899] pct_drop_spec [of 1000 1100] pct_drop_spec [of "-3" 7]
  by simp

subsection \<open>Keyword filter\<close>

text \<open>
  Claim C6. For every title and every include and exclude keyword list, \<open>text_ok\<close>
  rejects the candidate exactly when some exclude keyword is a case-insensitive
  substring of the title or some include keyword is not one (all includes must be
  present). The title \<open>6'7 surfboard 90L\<close> with include \<open>6'7\<close> and exclude
  \<open>90L\<close> is rejected; the title \<open>6'7 110L\<close> with the same lists is accepted.
\<close>

theorem text_ok_spec:
  "(\<not> text_ok s includes excludes \<longleftrightarrow>
      (\<exists>k\<in>set excludes. sublist (lower k) (lower s))
      \<or> (\<exists>k\<in>set includes. \<not> sublist (lower k) (lower s)))
   \<and> \<not> text_ok ''6'7 surfboard 90L'' [''6'7''] [''90L'']
   \<and> text_ok ''6'7 110L'' [''6'7''] [''90L'']"
proof -
  have gen: "\<not> text_ok s includes excludes \<longleftrightarrow>
      (\<exists>k\<in>set excludes. sublist (lower k) (lower s))
      \<or> (\<exists>k\<in>set includes. \<not> sublist (lower k) (lower s))"
    by (auto simp: text_ok_def Let_def list_all_iff list_ex_iff py_in_sublist)
  have ex1: "\<not> text_ok ''6'7 surfboard 90L'' [''6'7''] [''90L'']"
    by (simp add: text_ok_def lower_def lower_char_def)
  have ex2: "text_ok ''6'7 110L'' [''6'7''] [''90L'']"
    by (simp add: text_ok_def lower_def lower_char_def)
  from gen ex1 ex2 show ?thesis by blast
qed

theorem text_ok_spec_witness:
  "\<not> text_ok ''Foil Board 105L'' [''foil''] [''90L'', ''105l'']
   \<and> sublist (lower ''105l'') (lower ''Foil Board 105L'')
   \<and> \<not> text_ok ''Foil Board 110L'' [''foil'', ''6'7''] []
   \<and> \<not> sublist (lower ''6'7'') (lower ''Foil Board 110L'')"
proof -
  have b: "sublist (lower ''105l'') (lower ''Foil Board 105L'')"
    unfolding py_in_sublist [symmetric] by code_simp
  have d: "\<not> sublist (lower ''6'7'') (lower ''Foil Board 110L'')"
    unfolding py_in_sublist [symmetric] by code_simp
  have a: "\<not> text_ok ''Foil Board 105L'' [''foil''] [''90L'', ''105l'']"
    using text_ok_spec [of "''Foil Board 105L''" "[''foil'']" "[''90L'', ''105l'']"] b
    by simp
  have c: "\<not> text_ok ''Foil Board 110L'' [''foil'', ''6'7''] []"
    using text_ok_spec [of "''Foil Board 110L''" "[''foil'', ''6'7'']" "[]"] d
    by simp
  from a b c d show ?thesis by blast
qed

subsection \<open>The used-listing rules\<close>

lemma in_set_map_filter:
  "y \<in> set (List.map_filter f xs) \<longleftrightarrow> (\<exists>x\<in>set xs. f x = Some y)"
  by (induction xs) (auto split: option.splits)

lemma check_candidate_Some:
  "check_candidate scfg seen msrp (t, u, p) = Some m \<Longrightarrow>
     m_title m = t \<and> m_url m = u \<and> m_price m = p \<and> (u \<noteq> [] \<longrightarrow> u \<notin> seen)"
  by (auto simp: check_candidate_def Let_def split: if_splits)

lemma check_candidate_empty_url:
  "check_candidate scfg seen msrp (t, [], p) = check_candidate scfg seen' msrp (t, [], p)"
  by (simp add: check_candidate_def)

lemma search_used_market_Inr:
  assumes "search_used_market env w scfg seen msrp = (Inr ms, w')"
  shows "\<exists>doc cands. fetch_doc env w (s_url scfg) (s_timeout_of scfg) (s_headers scfg) = (Inr doc, w')
           \<and> extract_items env doc scfg = Inr cands
           \<and> ms = List.map_filter (check_candidate scfg seen msrp) cands"
  using assms
  by (auto simp: search_used_market_def Let_def s_headers_def s_timeout_of_def
           split: prod.splits sum.splits)

lemma search_used_market_fetched:
  assumes "fetch_doc env w (s_url scfg) (s_timeout_of scfg) (s_headers scfg) = (Inr doc, w')"
    and "extract_items env doc scfg = Inr cands"
  shows "search_used_market env w scfg seen msrp
         = (Inr (List.map_filter (check_candidate scfg seen msrp) cands), w')"
  using assms
  by (simp add: search_used_market_def Let_def s_headers_def s_timeout_of_def)

lemma matches_not_seen:
  assumes "search_used_market env w scfg seen msrp = (Inr ms, w')" "m \<in> set ms" "m_url m \<noteq> []"
  shows "m_url m \<notin> seen"
proof -
  from search_used_market_Inr [OF assms(1)] obtain cands
    where "ms = List.map_filter (check_candidate scfg seen msrp) cands" by blast
  with assms(2) obtain c where "check_candidate scfg seen msrp c = Some m"
    by (auto simp: in_set_map_filter)
  then show ?thesis using assms(3) check_candidate_Some [of scfg seen msrp "fst c" "fst (snd c)" "snd (snd c)" m]
    by auto
qed

lemma set_last_n_subset: "set (last_n n xs) \<subseteq> set xs"
  by (simp add: last_n_def set_drop_subset)

lemma last_n_all: "length xs \<le> n \<Longrightarrow> last_n n xs = xs"
  by (simp add: last_n_def)

lemma finite_urls_of: "finite (urls_of ms)"
  by (simp add: urls_of_def)

lemma urls_of_filter: "set (filter (\<lambda>u. u \<noteq> []) (map m_url ms)) = urls_of ms"
  by (auto simp: urls_of_def)

lemma urls_of_Nil: "urls_of [] = {}"
  by (simp add: urls_of_def)

lemma process_search_alt:
  "process_search env cfg msrp (state, logs, alerts, w) scfg =
     (let sid = sid_of scfg;
          sstate = (case searches state sid of None \<Rightarrow> None | Some s \<Rightarrow> s);
          state0 = state\<lparr>searches := (searches state)(sid \<mapsto> sstate)\<rparr>;
          seen = seen_of state sid
      in case search_used_market env w scfg seen (msrp_arg msrp) of
           (Inl e, w1) \<Rightarrow> (state0, logs @ [ErrUsedSearch sid e], alerts, w1)
         | (Inr matches, w1) \<Rightarrow>
             let name = (case s_name scfg of Some n \<Rightarrow> n | None \<Rightarrow> sid);
                 mail = UsedFinds name (s_url scfg) matches;
                 sent = (if matches \<noteq> [] \<and> smtp_ok cfg
                         then (case send_email env w1 mail of
                                 (None, w2) \<Rightarrow> (logs, w2)
                               | (Some e, w2) \<Rightarrow> (logs @ [ErrUsedEmail e], w2))
                         else (logs, w1));
                 state1 = state\<lparr>searches := (searches state)
                            (sid \<mapsto> Some (last_n 2000
                               (sorted_list_of_set (seen \<union> urls_of matches))))\<rparr>
             in (state1, fst sent, (if matches \<noteq> [] then alerts @ [mail] else alerts),
                 snd sent))"
proof -
  have seen: "set (case (case searches state (sid_of scfg) of
                           None \<Rightarrow> None | Some s \<Rightarrow> s) of
                     None \<Rightarrow> [] | Some xs \<Rightarrow> xs) = seen_of state (sid_of scfg)"
    by (simp add: seen_of_def split: option.splits)
  have msrp: "(if msrp > 0 then Some msrp else None) = msrp_arg msrp"
    by (simp add: msrp_arg_def)
  have sid: "id_or_url (s_id scfg) (s_url scfg) = sid_of scfg"
    by (simp add: sid_of_def)
  have urls: "(if ms \<noteq> [] then A \<union> set (filter (\<lambda>u. u \<noteq> []) (map m_url ms)) else A)
              = A \<union> urls_of ms" for ms and A :: "string set"
    by (auto simp: urls_of_def)
  show ?thesis
    unfolding process_search_def prod.case Let_def seen msrp urls sid
    by (simp split: prod.splits sum.splits)
qed

lemma process_search_Inr:
  assumes "search_used_market env w scfg (seen_of state (sid_of scfg)) (msrp_arg msrp) = (Inr ms, w1)"
  shows "fst (process_search env cfg msrp (state, logs, alerts, w) scfg)
           = state\<lparr>searches := (searches state)
               (sid_of scfg \<mapsto> Some (last_n 2000
                  (sorted_list_of_set (seen_of state (sid_of scfg) \<union> urls_of ms))))\<rparr>"
    and "fst (snd (snd (process_search env cfg msrp (state, logs, alerts, w) scfg)))
           = (if ms \<noteq> []
              then alerts @ [UsedFinds (case s_name scfg of Some n \<Rightarrow> n | None \<Rightarrow> sid_of scfg)
                                       (s_url scfg) ms]
              else alerts)"
  using assms by (simp_all add: process_search_alt Let_def)

lemma process_search_Inl:
  assumes "search_used_market env w scfg (seen_of state (sid_of scfg)) (msrp_arg msrp) = (Inl e, w1)"
  shows "process_search env cfg msrp (state, logs, alerts, w) scfg
           = (state\<lparr>searches := (searches state)
                 (sid_of scfg \<mapsto> (case searches state (sid_of scfg) of None \<Rightarrow> None | Some s \<Rightarrow> s))\<rparr>,
              logs @ [ErrUsedSearch (sid_of scfg) e], alerts, w1)"
  using assms by (simp add: process_search_alt Let_def)

text \<open>
  Claim C5, as the code has it. For every candidate the rules are evaluated in the
  order keyword filter, dedup filter, absolute-ceiling rule, percent-below-reference
  rule, and the first that applies decides. The ceiling rule fires whenever a ceiling
  other than zero is configured, the price is known and the price is at most the
  ceiling; only when it does not fire is the percent rule consulted, which needs a
  reference price and a threshold other than zero.
\<close>

theorem check_candidate_rule_order:
  "(\<not> text_ok title (include_keywords scfg) (exclude_keywords scfg)
      \<longrightarrow> check_candidate scfg seen msrp (title, url, price) = None)
   \<and> (text_ok title (include_keywords scfg) (exclude_keywords scfg) \<and> url \<noteq> [] \<and> url \<in> seen
      \<longrightarrow> check_candidate scfg seen msrp (title, url, price) = None)
   \<and> (text_ok title (include_keywords scfg) (exclude_keywords scfg)
       \<and> \<not> (url \<noteq> [] \<and> url \<in> seen)
       \<and> alert_below scfg = Some c \<and> c \<noteq> 0 \<and> price = Some p \<and> p \<le> c
      \<longrightarrow> check_candidate scfg seen msrp (title, url, price)
          = Some \<lparr>m_title = title, m_url = url, m_price = price, m_reason = BelowCeiling c\<rparr>)
   \<and> (text_ok title (include_keywords scfg) (exclude_keywords scfg)
       \<and> \<not> (url \<noteq> [] \<and> url \<in> seen)
       \<and> \<not> (\<exists>c p. alert_below scfg = Some c \<and> c \<noteq> 0 \<and> price = Some p \<and> p \<le> c)
      \<longrightarrow> check_candidate scfg seen msrp (title, url, price)
          = (case (msrp, alert_percent_below_msrp scfg, price) of
               (Some r, Some t, Some p) \<Rightarrow>
                 if r \<noteq> 0 \<and> t \<noteq> 0 \<and> pct_drop r p \<ge> t
                 then Some \<lparr>m_title = title, m_url = url, m_price = price,
                            m_reason = BelowMsrp (pct_drop r p)\<rparr>
                 else None
             | _ \<Rightarrow> None))"
  by (auto simp: check_candidate_def Let_def split: option.splits)

text \<open>
  The theorem at a search with ceiling \<open>2300\<close> and threshold \<open>10\<close> percent below a
  reference of \<open>2747\<close>: an excluded title, a seen URL, a price under the ceiling (the
  percent rule would fire as well, the ceiling rule wins), and a price above the ceiling
  that is \<open>347 / 2747\<close> of the reference below it.
\<close>

theorem check_candidate_rule_order_witness:
  "check_candidate foil_search {} (Some 2747) (''6'7 foil 90L'', ''https://used.example/1'', Some 2000)
     = None
   \<and> check_candidate foil_search {''https://used.example/2''} (Some 2747)
        (''6'7 foil 110L'', ''https://used.example/2'', Some 2000) = None
   \<and> check_candidate foil_search {} (Some 2747)
        (''6'7 foil 110L'', ''https://used.example/2'', Some 2000)
     = Some \<lparr>m_title = ''6'7 foil 110L'', m_url = ''https://used.example/2'',
              m_price = Some 2000, m_reason = BelowCeiling 2300\<rparr>
   \<and> check_candidate foil_search {} (Some 2747)
        (''6'7 foil 110L'', ''https://used.example/2'', Some 2400)
     = Some \<lparr>m_title = ''6'7 foil 110L'', m_url = ''https://used.example/2'',
              m_price = Some 2400, m_reason = BelowMsrp (34700 / 2747)\<rparr>"
proof -
  have bad: "\<not> text_ok ''6'7 foil 90L'' (include_keywords foil_search) (exclude_keywords foil_search)"
    by (simp add: foil_search_def text_ok_def lower_def lower_char_def char_of_def)
  have good: "text_ok ''6'7 foil 110L'' (include_keywords foil_search) (exclude_keywords foil_search)"
    by (simp add: foil_search_def text_ok_def lower_def lower_char_def char_of_def)
  have cfg: "alert_below foil_search = Some 2300" "alert_percent_below_msrp foil_search = Some 10"
    by (simp_all add: foil_search_def)
  have drop: "pct_drop 2747 2400 = 34700 / 2747"
    by (simp add: pct_drop_def)
  have a: "check_candidate foil_search {} (Some 2747)
             (''6'7 foil 90L'', ''https://used.example/1'', Some 2000) = None"
    using check_candidate_rule_order
      [of "''6'7 foil 90L''" foil_search "{}" "Some 2747" "''https://used.example/1''" "Some 2000"]
      bad by blast
  have b: "check_candidate foil_search {''https://used.example/2''} (Some 2747)
             (''6'7 foil 110L'', ''https://used.example/2'', Some 2000) = None"
    using check_candidate_rule_order
      [of "''6'7 foil 110L''" foil_search "{''https://used.example/2''}" "Some 2747"
          "''https://used.example/2''" "Some 2000"]
      good by simp
  have c: "check_candidate foil_search {} (Some 2747)
             (''6'7 foil 110L'', ''https://used.example/2'', Some 2000)
           = Some \<lparr>m_title = ''6'7 foil 110L'', m_url = ''https://used.example/2'',
                    m_price = Some 2000, m_reason = BelowCeiling 2300\<rparr>"
    using check_candidate_rule_order
      [of "''6'7 foil 110L''" foil_search "{}" "Some 2747" "''https://used.example/2''"
          "Some 2000" 2300 2000]
      good cfg by simp
  have d: "check_candidate foil_search {} (Some 2747)
             (''6'7 foil 110L'', ''https://used.example/2'', Some 2400)
           = Some \<lparr>m_title = ''6'7 foil 110L'', m_url = ''https://used.example/2'',
                    m_price = Some 2400, m_reason = BelowMsrp (34700 / 2747)\<rparr>"
    using check_candidate_rule_order
      [of "''6'7 foil 110L''" foil_search "{}" "Some 2747" "''https://used.example/2''"
          "Some 2400"]
      good cfg drop by simp
  from a b c d show ?thesis by blast
qed

text \<open>
  Claim C5 as the specification states it fails for a ceiling of zero: the ceiling is
  configured, the price \<open>0\<close> is known and is at most the ceiling, the title passes the
  keyword filter and the URL is new, and the ceiling rule does not fire.
\<close>

theorem check_candidate_counterexample:
  "alert_below (foil_search\<lparr>alert_below := Some 0\<rparr>) = Some 0
   \<and> text_ok ''6'7 foil 110L'' (include_keywords (foil_search\<lparr>alert_below := Some 0\<rparr>))
        (exclude_keywords (foil_search\<lparr>alert_below := Some 0\<rparr>))
   \<and> check_candidate (foil_search\<lparr>alert_below := Some 0\<rparr>) {} None
        (''6'7 foil 110L'', ''https://used.example/3'', Some 0) = None"
  by (simp add: check_candidate_def foil_search_def text_ok_def lower_def lower_char_def
        char_of_def)

subsection \<open>Runs of the search loop\<close>

lemma main_alt:
  "main env cfg state w =
     foldl (process_search env cfg (msrp_of cfg))
       (foldl (process_product env cfg) (state, if \<not> smtp_ok cfg then [WarnSmtp] else [], [], w)
          (c_products cfg))
       (c_searches cfg)"
  by (simp add: main_def Let_def msrp_of_def)

lemma process_search_alerts_mono:
  "set (run_alerts run) \<subseteq> set (run_alerts (process_search env cfg r run scfg))"
proof -
  obtain state logs alerts w where run: "run = (state, logs, alerts, w)"
    by (cases run) auto
  show ?thesis
    unfolding run
    by (auto simp: process_search_alt Let_def run_alerts_def split: prod.splits sum.splits)
qed

lemma foldl_process_search_alerts_mono:
  "set (run_alerts run) \<subseteq> set (run_alerts (foldl (process_search env cfg r) run ss))"
proof (induction ss arbitrary: run)
  case Nil
  show ?case by simp
next
  case (Cons s ss)
  have "set (run_alerts run) \<subseteq> set (run_alerts (process_search env cfg r run s))"
    by (rule process_search_alerts_mono)
  also have "\<dots> \<subseteq> set (run_alerts (foldl (process_search env cfg r) (process_search env cfg r run s) ss))"
    by (rule Cons.IH)
  finally show ?case by simp
qed

lemma empty_url_step:
  assumes fetch: "\<forall>w. \<exists>w'. fetch_doc env w (s_url scfg) (s_timeout_of scfg) (s_headers scfg) = (Inr doc, w')"
    and items: "extract_items env doc scfg = Inr cands"
    and cand: "(title, [], price) \<in> set cands"
    and fires: "check_candidate scfg {} (msrp_arg r) (title, [], price) = Some m"
  shows "\<exists>name url ms. UsedFinds name url ms \<in> set (run_alerts (process_search env cfg r run scfg))
           \<and> m \<in> set ms"
proof -
  obtain state logs alerts w where run: "run = (state, logs, alerts, w)"
    by (cases run) auto
  from fetch obtain w' where
    f: "fetch_doc env w (s_url scfg) (s_timeout_of scfg) (s_headers scfg) = (Inr doc, w')"
    by blast
  let ?seen = "seen_of state (sid_of scfg)"
  let ?ms = "List.map_filter (check_candidate scfg ?seen (msrp_arg r)) cands"
  have sm: "search_used_market env w scfg ?seen (msrp_arg r) = (Inr ?ms, w')"
    by (rule search_used_market_fetched [OF f items])
  have "check_candidate scfg ?seen (msrp_arg r) (title, [], price) = Some m"
    using fires check_candidate_empty_url [of scfg ?seen "msrp_arg r" title price "{}"] by simp
  with cand have m: "m \<in> set ?ms"
    by (auto simp: in_set_map_filter)
  then have ne: "?ms \<noteq> []" by auto
  from process_search_Inr(2) [OF sm, of cfg logs alerts] ne
  have "run_alerts (process_search env cfg r run scfg)
        = alerts @ [UsedFinds (case s_name scfg of Some n \<Rightarrow> n | None \<Rightarrow> sid_of scfg) (s_url scfg) ?ms]"
    by (simp add: run run_alerts_def)
  with m show ?thesis by auto
qed

lemma empty_url_loop:
  assumes fetch: "\<forall>w. \<exists>w'. fetch_doc env w (s_url scfg) (s_timeout_of scfg) (s_headers scfg) = (Inr doc, w')"
    and items: "extract_items env doc scfg = Inr cands"
    and cand: "(title, [], price) \<in> set cands"
    and fires: "check_candidate scfg {} (msrp_arg r) (title, [], price) = Some m"
    and mem: "scfg \<in> set ss"
  shows "\<exists>name url ms. UsedFinds name url ms
            \<in> set (run_alerts (foldl (process_search env cfg r) run ss)) \<and> m \<in> set ms"
  using mem
proof (induction ss arbitrary: run)
  case Nil
  then show ?case by simp
next
  case (Cons s ss)
  show ?case
  proof (cases "s = scfg")
    case True
    from empty_url_step [OF fetch items cand fires, of cfg run]
    obtain name url ms where
      "UsedFinds name url ms \<in> set (run_alerts (process_search env cfg r run scfg))" "m \<in> set ms"
      by blast
    with foldl_process_search_alerts_mono [of "process_search env cfg r run scfg" env cfg r ss] True
    show ?thesis by auto
  next
    case False
    with Cons.prems have "scfg \<in> set ss" by simp
    from Cons.IH [OF this, of "process_search env cfg r run s"] show ?thesis by simp
  qed
qed

lemma empty_url_main:
  assumes fetch: "\<forall>w. \<exists>w'. fetch_doc env w (s_url scfg) (s_timeout_of scfg) (s_headers scfg) = (Inr doc, w')"
    and items: "extract_items env doc scfg = Inr cands"
    and cand: "(title, [], price) \<in> set cands"
    and fires: "check_candidate scfg {} (msrp_arg (msrp_of cfg)) (title, [], price) = Some m"
    and mem: "scfg \<in> set (c_searches cfg)"
  shows "\<exists>name url ms. UsedFinds name url ms \<in> set (run_alerts (main env cfg state w)) \<and> m \<in> set ms"
  unfolding main_alt
  by (rule empty_url_loop [OF fetch items cand fires mem])

lemma empty_url_main_runs:
  assumes fetch: "\<forall>w. \<exists>w'. fetch_doc env w (s_url scfg) (s_timeout_of scfg) (s_headers scfg) = (Inr doc, w')"
    and items: "extract_items env doc scfg = Inr cands"
    and cand: "(title, [], price) \<in> set cands"
    and fires: "check_candidate scfg {} (msrp_arg (msrp_of cfg)) (title, [], price) = Some m"
    and mem: "scfg \<in> set (c_searches cfg)"
  shows "length (fst (snd (main_runs env (replicate n cfg) state w))) = n
         \<and> (\<forall>alerts \<in> set (fst (snd (main_runs env (replicate n cfg) state w))).
               \<exists>name url ms. UsedFinds name url ms \<in> set alerts \<and> m \<in> set ms)"
proof (induction n arbitrary: state w)
  case 0
  show ?case by simp
next
  case (Suc n)
  obtain state' logs alerts w' where m: "main env cfg state w = (state', logs, alerts, w')"
    by (cases "main env cfg state w") auto
  from empty_url_main [OF fetch items cand fires mem, of state w] m
  have first: "\<exists>name url ms. UsedFinds name url ms \<in> set alerts \<and> m \<in> set ms"
    by (simp add: run_alerts_def)
  from Suc.IH [of state' w'] first m show ?case
    by (auto split: prod.splits)
qed

lemma finite_seen_of: "finite (seen_of state sid)"
  unfolding seen_of_def by (rule finite_set)

lemma seen_of_Some: "searches state sid = Some (Some xs) \<Longrightarrow> seen_of state sid = set xs"
  by (simp add: seen_of_def)

lemma seen_of_cong: "searches state sid = searches state' sid \<Longrightarrow> seen_of state sid = seen_of state' sid"
  by (simp add: seen_of_def)

lemma set_last_n_sorted:
  fixes A :: "string set"
  assumes "finite A" "card A \<le> n"
  shows "set (last_n n (sorted_list_of_set A)) = A"
proof -
  have "length (sorted_list_of_set A) = card A"
    by simp
  with assms(2) have "last_n n (sorted_list_of_set A) = sorted_list_of_set A"
    by (simp add: last_n_all)
  with assms(1) show ?thesis by simp
qed

lemma set_last_n_sorted_subset:
  fixes A :: "string set"
  assumes "finite A"
  shows "set (last_n n (sorted_list_of_set A)) \<subseteq> A"
  using set_last_n_subset [of n "sorted_list_of_set A"] assms by simp

lemma process_search_entry:
  assumes "search_used_market env w scfg (seen_of state (sid_of scfg)) (msrp_arg r) = (Inr ms, w')"
  shows "searches (run_state (process_search env cfg r (state, logs, alerts, w) scfg)) (sid_of scfg)
         = Some (Some (last_n 2000 (sorted_list_of_set (seen_of state (sid_of scfg) \<union> urls_of ms))))"
  using process_search_Inr(1) [OF assms, of cfg logs alerts] by (simp add: run_state_def)

lemma process_search_seen_exact:
  assumes "search_used_market env w scfg (seen_of state (sid_of scfg)) (msrp_arg r) = (Inr ms, w')"
    and "card (seen_of state (sid_of scfg) \<union> urls_of ms) \<le> 2000"
  shows "seen_of (run_state (process_search env cfg r (state, logs, alerts, w) scfg)) (sid_of scfg)
         = seen_of state (sid_of scfg) \<union> urls_of ms"
proof -
  have fin: "finite (seen_of state (sid_of scfg) \<union> urls_of ms)"
    by (simp add: finite_seen_of finite_urls_of)
  show ?thesis
    unfolding seen_of_Some [OF process_search_entry [OF assms(1)]]
    by (rule set_last_n_sorted [OF fin assms(2)])
qed

lemma process_search_seen_subset:
  "seen_of (run_state (process_search env cfg r (state, logs, alerts, w) scfg)) (sid_of scfg)
     \<subseteq> seen_of state (sid_of scfg) \<union>
        urls_of (case fst (search_used_market env w scfg (seen_of state (sid_of scfg)) (msrp_arg r)) of
                   Inl e \<Rightarrow> [] | Inr ms \<Rightarrow> ms)"
proof (cases "search_used_market env w scfg (seen_of state (sid_of scfg)) (msrp_arg r)")
  case (Pair res w')
  show ?thesis
  proof (cases res)
    case (Inl e)
    with Pair process_search_Inl [of env w scfg state r e w' cfg logs alerts]
    show ?thesis
      by (auto simp: run_state_def seen_of_def split: option.splits)
  next
    case (Inr ms)
    have fin: "finite (seen_of state (sid_of scfg) \<union> urls_of ms)"
      by (simp add: finite_seen_of finite_urls_of)
    from Pair Inr have sm: "search_used_market env w scfg (seen_of state (sid_of scfg)) (msrp_arg r) = (Inr ms, w')"
      by simp
    show ?thesis
      unfolding seen_of_Some [OF process_search_entry [OF sm]]
      using set_last_n_sorted_subset [OF fin, of 2000] sm by simp
  qed
qed

lemmas search_eval = search_used_market_def fetch_doc_def toy_env_def extract_items_def
  card_title_def card_url_def card_price_def first_node_def py_strip_def is_space_def
  check_candidate_def text_ok_def lower_def lower_char_def char_of_def
  foil_search_def used_page_def used_env_def match_1_def match_2_def

lemmas cand_eval = check_candidate_def text_ok_def lower_def lower_char_def char_of_def
  foil_search_def match_1_def match_2_def

lemma used_items:
  "extract_items used_env used_page foil_search
     = Inr [(''6'7 foil 110L'', [], Some 2000),
            (''6'7 foil 110L pro'', ''https://used.example/item/2'', Some 2100)]"
  by (simp add: search_eval epn_eval)

lemma used_fetch:
  "fetch_doc used_env w (s_url foil_search) (s_timeout_of foil_search) (s_headers foil_search)
     = (Inr used_page, Suc w)"
  by (simp add: fetch_doc_def used_env_def toy_env_def)

lemma used_first: "search_used_market used_env 0 foil_search {} None = (Inr [match_1, match_2], 1)"
  unfolding search_used_market_fetched [OF used_fetch used_items]
  by (simp add: cand_eval)

subsection \<open>Deduplication\<close>

text \<open>
  Claim C8. For every tracked search, in every run, a listing URL that is in the
  search's SeenSet is not alerted on: the dedup filter discards a candidate whose URL
  is in the SeenSet; no match of a run carries a URL of the SeenSet the run loaded; the
  URLs of the matches are added to the SeenSet before it is persisted (sorted, the last
  2000 kept, so nothing is lost while the set has at most 2000 elements); and then, in
  a later run that loads the persisted set, no match carries a URL that was in the
  SeenSet or was alerted on in this run. A URL is a non-empty string.
\<close>

theorem seen_url_not_alerted_again:
  "(url \<noteq> [] \<and> url \<in> seen \<longrightarrow> check_candidate scfg seen msrp (title, url, price) = None)
   \<and> (search_used_market env w scfg seen msrp = (Inr ms, w')
        \<longrightarrow> (\<forall>m\<in>set ms. m_url m \<noteq> [] \<longrightarrow> m_url m \<notin> seen))
   \<and> (search_used_market env w scfg (seen_of state (sid_of scfg)) (msrp_arg r) = (Inr ms, w')
        \<longrightarrow> searches (run_state (process_search env cfg r (state, logs, alerts, w) scfg))
              (sid_of scfg)
            = Some (Some (last_n 2000
                (sorted_list_of_set (seen_of state (sid_of scfg) \<union> urls_of ms))))
          \<and> (card (seen_of state (sid_of scfg) \<union> urls_of ms) \<le> 2000
               \<longrightarrow> seen_of (run_state (process_search env cfg r (state, logs, alerts, w) scfg))
                     (sid_of scfg)
                   = seen_of state (sid_of scfg) \<union> urls_of ms))
   \<and> (search_used_market env w scfg (seen_of state (sid_of scfg)) (msrp_arg r) = (Inr ms, w')
        \<and> card (seen_of state (sid_of scfg) \<union> urls_of ms) \<le> 2000
        \<and> searches later (sid_of scfg)
            = searches (run_state (process_search env cfg r (state, logs, alerts, w) scfg))
                (sid_of scfg)
        \<and> search_used_market env w2 scfg (seen_of later (sid_of scfg)) (msrp_arg r2)
            = (Inr ms2, w3)
        \<longrightarrow> (\<forall>m\<in>set ms2. m_url m \<noteq> []
               \<longrightarrow> m_url m \<notin> seen_of state (sid_of scfg) \<and> m_url m \<notin> m_url ` set ms))"
proof -
  let ?sid = "sid_of scfg"
  let ?step = "process_search env cfg r (state, logs, alerts, w) scfg"
  have filter: "check_candidate scfg seen msrp (title, url, price) = None"
    if "url \<noteq> []" "url \<in> seen"
    using that by (simp add: check_candidate_def)
  have fresh: "\<forall>m\<in>set ms. m_url m \<noteq> [] \<longrightarrow> m_url m \<notin> seen"
    if "search_used_market env w scfg seen msrp = (Inr ms, w')"
    using matches_not_seen [OF that] by blast
  have entry: "searches (run_state ?step) ?sid
      = Some (Some (last_n 2000 (sorted_list_of_set (seen_of state ?sid \<union> urls_of ms))))"
    if "search_used_market env w scfg (seen_of state ?sid) (msrp_arg r) = (Inr ms, w')"
    by (rule process_search_entry [OF that])
  have exact: "seen_of (run_state ?step) ?sid = seen_of state ?sid \<union> urls_of ms"
    if "search_used_market env w scfg (seen_of state ?sid) (msrp_arg r) = (Inr ms, w')"
      and "card (seen_of state ?sid \<union> urls_of ms) \<le> 2000"
    by (rule process_search_seen_exact [OF that])
  have later: "\<forall>m\<in>set ms2. m_url m \<noteq> []
        \<longrightarrow> m_url m \<notin> seen_of state ?sid \<and> m_url m \<notin> m_url ` set ms"
    if sm: "search_used_market env w scfg (seen_of state ?sid) (msrp_arg r) = (Inr ms, w')"
      and small: "card (seen_of state ?sid \<union> urls_of ms) \<le> 2000"
      and same: "searches later ?sid = searches (run_state ?step) ?sid"
      and sm2: "search_used_market env w2 scfg (seen_of later ?sid) (msrp_arg r2) = (Inr ms2, w3)"
  proof (intro ballI impI)
    fix m assume m: "m \<in> set ms2" "m_url m \<noteq> []"
    have "seen_of later ?sid = seen_of state ?sid \<union> urls_of ms"
      using seen_of_cong [OF same] exact [OF sm small] by simp
    with matches_not_seen [OF sm2 m] have "m_url m \<notin> seen_of state ?sid \<union> urls_of ms"
      by simp
    with m(2) show "m_url m \<notin> seen_of state ?sid \<and> m_url m \<notin> m_url ` set ms"
      by (auto simp: urls_of_def)
  qed
  from filter fresh entry exact later show ?thesis by blast
qed

text \<open>
  The theorem at the listing page of the examples, from an empty ledger: the first run
  alerts on both cards and persists the one URL; a run that loads it alerts on the card
  without a link only.
\<close>

theorem seen_url_not_alerted_again_witness:
  "search_used_market used_env 0 foil_search (seen_of empty_ledger (sid_of foil_search))
     (msrp_arg 0) = (Inr [match_1, match_2], 1)
   \<and> seen_of (run_state (process_search used_env used_cfg 0 (empty_ledger, [], [], 0) foil_search))
        (sid_of foil_search) = {''https://used.example/item/2''}
   \<and> check_candidate foil_search {''https://used.example/item/2''} None
        (''6'7 foil 110L pro'', ''https://used.example/item/2'', Some 2100) = None
   \<and> search_used_market used_env 1 foil_search {''https://used.example/item/2''} None
        = (Inr [match_1], 2)"
proof -
  have seen0: "seen_of empty_ledger (sid_of foil_search) = {}"
    by (simp add: seen_of_def empty_ledger_def)
  have arg: "msrp_arg 0 = None"
    by (simp add: msrp_arg_def)
  have urls: "urls_of [match_1, match_2] = {''https://used.example/item/2''}"
    by (auto simp: urls_of_def match_1_def match_2_def)
  have first: "search_used_market used_env 0 foil_search
      (seen_of empty_ledger (sid_of foil_search)) (msrp_arg 0) = (Inr [match_1, match_2], 1)"
    unfolding seen0 arg by (rule used_first)
  have small: "card (seen_of empty_ledger (sid_of foil_search) \<union> urls_of [match_1, match_2]) \<le> 2000"
    by (simp add: seen0 urls)
  note inst = seen_url_not_alerted_again
    [of "''https://used.example/item/2''" "{''https://used.example/item/2''}" foil_search None
        "''6'7 foil 110L pro''" "Some 2100" used_env 0 "[match_1, match_2]" 1 empty_ledger 0
        used_cfg "[]" "[]"]
  from inst first small
  have persisted: "seen_of (run_state (process_search used_env used_cfg 0
      (empty_ledger, [], [], 0) foil_search)) (sid_of foil_search) = {''https://used.example/item/2''}"
    by (simp add: seen0 urls)
  from inst have dropped: "check_candidate foil_search {''https://used.example/item/2''} None
      (''6'7 foil 110L pro'', ''https://used.example/item/2'', Some 2100) = None"
    by simp
  have second: "search_used_market used_env 1 foil_search {''https://used.example/item/2''} None
      = (Inr [match_1], 2)"
    unfolding search_used_market_fetched [OF used_fetch used_items]
    by (simp add: cand_eval)
  from first persisted dropped second show ?thesis by blast
qed

text \<open>
  Claim C10. A candidate whose URL is the empty string is never checked against the
  SeenSet: its result is the same for every SeenSet. The empty string is never added to
  the SeenSet. Hence, when every run is served the same page and configuration, and the
  page has such a candidate that passes the keyword and economic rules, every run
  builds an alert that lists it.
\<close>

theorem empty_url_bypasses_dedup:
  "check_candidate scfg seen msrp (title, [], price)
     = check_candidate scfg {} msrp (title, [], price)
   \<and> ([] \<in> seen_of (run_state (process_search env cfg r (state, logs, alerts, w) scfg))
               (sid_of scfg)
        \<longrightarrow> [] \<in> seen_of state (sid_of scfg))
   \<and> ((\<forall>w. \<exists>w'. fetch_doc env w (s_url scfg) (s_timeout_of scfg) (s_headers scfg)
                    = (Inr doc, w'))
        \<and> extract_items env doc scfg = Inr cands
        \<and> (title, [], price) \<in> set cands
        \<and> check_candidate scfg {} (msrp_arg (msrp_of cfg)) (title, [], price) = Some m
        \<and> scfg \<in> set (c_searches cfg)
        \<longrightarrow> length (fst (snd (main_runs env (replicate n cfg) state w))) = n
          \<and> (\<forall>alerts \<in> set (fst (snd (main_runs env (replicate n cfg) state w))).
                \<exists>name url ms. UsedFinds name url ms \<in> set alerts \<and> m \<in> set ms))"
proof -
  have indep: "check_candidate scfg seen msrp (title, [], price)
      = check_candidate scfg {} msrp (title, [], price)"
    by (rule check_candidate_empty_url)
  have no_empty: "[] \<notin> urls_of xs" for xs
    by (simp add: urls_of_def)
  have never_added: "[] \<in> seen_of state (sid_of scfg)"
    if "[] \<in> seen_of (run_state (process_search env cfg r (state, logs, alerts, w) scfg))
              (sid_of scfg)"
    using that process_search_seen_subset [of env cfg r state logs alerts w scfg] no_empty
    by blast
  have every_run:
    "length (fst (snd (main_runs env (replicate n cfg) state w))) = n
     \<and> (\<forall>alerts \<in> set (fst (snd (main_runs env (replicate n cfg) state w))).
           \<exists>name url ms. UsedFinds name url ms \<in> set alerts \<and> m \<in> set ms)"
    if "\<forall>w. \<exists>w'. fetch_doc env w (s_url scfg) (s_timeout_of scfg) (s_headers scfg) = (Inr doc, w')"
      and "extract_items env doc scfg = Inr cands"
      and "(title, [], price) \<in> set cands"
      and "check_candidate scfg {} (msrp_arg (msrp_of cfg)) (title, [], price) = Some m"
      and "scfg \<in> set (c_searches cfg)"
    by (rule empty_url_main_runs [OF that])
  from indep never_added every_run show ?thesis by blast
qed

text \<open>The theorem at the listing page of the examples: three runs, three alerts that
  list the card without a link.\<close>

theorem empty_url_bypasses_dedup_witness:
  "extract_items used_env used_page foil_search
     = Inr [(''6'7 foil 110L'', [], Some 2000),
            (''6'7 foil 110L pro'', ''https://used.example/item/2'', Some 2100)]
   \<and> check_candidate foil_search {} (msrp_arg (msrp_of used_cfg)) (''6'7 foil 110L'', [], Some 2000)
       = Some match_1
   \<and> length (fst (snd (main_runs used_env (replicate 3 used_cfg) empty_ledger 0))) = 3
   \<and> list_all (\<lambda>alerts. \<exists>name url ms. UsedFinds name url ms \<in> set alerts \<and> match_1 \<in> set ms)
        (fst (snd (main_runs used_env (replicate 3 used_cfg) empty_ledger 0)))"
proof -
  have fetch: "\<forall>w. \<exists>w'. fetch_doc used_env w (s_url foil_search) (s_timeout_of foil_search)
      (s_headers foil_search) = (Inr used_page, w')"
    using used_fetch by blast
  have fires: "check_candidate foil_search {} (msrp_arg (msrp_of used_cfg))
      (''6'7 foil 110L'', [], Some 2000) = Some match_1"
    by (simp add: cand_eval)
  have cand: "(''6'7 foil 110L'', [], Some 2000)
      \<in> set [(''6'7 foil 110L'', [], Some 2000),
              (''6'7 foil 110L pro'', ''https://used.example/item/2'', Some 2100)]"
    by simp
  have mem: "foil_search \<in> set (c_searches used_cfg)"
    by (simp add: used_cfg_def)
  from empty_url_bypasses_dedup
    [where scfg = foil_search and seen = "{}" and msrp = None and title = "''6'7 foil 110L''"
       and price = "Some 2000" and env = used_env and cfg = used_cfg and r = 0
       and state = empty_ledger and logs = "[]" and alerts = "[]" and w = 0
       and doc = used_page
       and cands = "[(''6'7 foil 110L'', [], Some 2000),
                     (''6'7 foil 110L pro'', ''https://used.example/item/2'', Some 2100)]"
       and m = match_1 and n = 3]
    fetch used_items cand fires mem
  have "length (fst (snd (main_runs used_env (replicate 3 used_cfg) empty_ledger 0))) = 3
     \<and> (\<forall>alerts \<in> set (fst (snd (main_runs used_env (replicate 3 used_cfg) empty_ledger 0))).
           \<exists>name url ms. UsedFinds name url ms \<in> set alerts \<and> match_1 \<in> set ms)"
    by blast
  with used_items fires show ?thesis
    by (simp add: list_all_iff)
qed

end
